theory Spec2Isabelle
  imports Main
begin

section \<open>Values of the JavaScript runtime\<close>

text \<open>
  The program is a single asynchronous routine \<open>run\<close> (src/index.ts) that reads a ledger
  through a Postgres client, accumulates one entry per block height, checks the series,
  prunes it and writes a CSV file. Block heights are JavaScript numbers holding integers
  and amounts are BigInts; both are modelled as \<open>int\<close> (numbers are exact below \<open>2^53\<close>).
  An exception is a value \<open>Inl e\<close> of the result type \<open>error + 'a\<close>. The client is taken to
  answer every query with rows of the declared types and the file system to accept the
  file: the exceptions modelled are those the routine itself can raise, which are the
  reads of a property of \<open>undefined\<close>, the invalid date and the failed assertions.
\<close>

datatype error =
    TypeError string
  | RangeError string
  | AssertionError string

text \<open>\<open>Number.prototype.toString\<close> and \<open>BigInt.prototype.toString\<close> on integers.\<close>

definition digit_char :: "nat \<Rightarrow> char" where
  "digit_char d = ''0123456789'' ! (d mod 10)"

function show_nat :: "nat \<Rightarrow> string" where
  "show_nat n = (if n < 10 then [digit_char n] else show_nat (n div 10) @ [digit_char (n mod 10)])"
  by pat_completeness auto
termination
  by (relation "measure id") auto

definition show_int :: "int \<Rightarrow> string" where
  "show_int i = (if i < 0 then CHR ''-'' # show_nat (nat (- i)) else show_nat (nat i))"

text \<open>\<open>String.prototype.padStart\<close>, \<open>slice(0, -n)\<close> and \<open>slice(-n)\<close>.\<close>

definition padStart :: "nat \<Rightarrow> char \<Rightarrow> string \<Rightarrow> string" where
  "padStart n c s = replicate (n - length s) c @ s"

definition slice_front :: "nat \<Rightarrow> string \<Rightarrow> string" where
  "slice_front n s = take (length s - n) s"

definition slice_back :: "nat \<Rightarrow> string \<Rightarrow> string" where
  "slice_back n s = drop (length s - n) s"

text \<open>
  \<open>new Date(t).toISOString()\<close> for a time value \<open>t\<close> in milliseconds since the epoch: the
  constructor clips a time value beyond 8.64e15 to an invalid date, on which
  \<open>toISOString\<close> throws a RangeError; otherwise the result is the UTC calendar date in the
  format \<open>YYYY-MM-DDTHH:mm:ss.sssZ\<close>, with a signed six-digit year outside 0..9999.
\<close>

definition year_of_era :: "int \<Rightarrow> int" where
  "year_of_era doe = (doe - doe div 1460 + doe div 36524 - doe div 146096) div 365"

definition day_of_year :: "int \<Rightarrow> int \<Rightarrow> int" where
  "day_of_year doe yoe = doe - (365 * yoe + yoe div 4 - yoe div 100)"

definition civil_from_month :: "int \<Rightarrow> int \<Rightarrow> int \<Rightarrow> int \<times> int \<times> int" where
  "civil_from_month y doy mp =
     (if mp < 10 then (y, mp + 3, doy - (153 * mp + 2) div 5 + 1)
      else (y + 1, mp - 9, doy - (153 * mp + 2) div 5 + 1))"

definition civil_from_day_of_year :: "int \<Rightarrow> int \<Rightarrow> int \<times> int \<times> int" where
  "civil_from_day_of_year y doy = civil_from_month y doy ((5 * doy + 2) div 153)"

definition civil_from_era :: "int \<Rightarrow> int \<Rightarrow> int \<Rightarrow> int \<times> int \<times> int" where
  "civil_from_era era doe yoe = civil_from_day_of_year (yoe + era * 400) (day_of_year doe yoe)"

text \<open>
  Year, month and day of a day number counted from 1970-01-01, in the proleptic Gregorian
  calendar: eras of 400 years (146097 days) that begin on a first of March.
\<close>

definition civil_from_days :: "int \<Rightarrow> int \<times> int \<times> int" where
  "civil_from_days z =
     civil_from_era ((z + 719468) div 146097) ((z + 719468) mod 146097)
       (year_of_era ((z + 719468) mod 146097))"

definition pad_num :: "nat \<Rightarrow> int \<Rightarrow> string" where
  "pad_num n i = padStart n CHR ''0'' (show_nat (nat i))"

definition year_string :: "int \<Rightarrow> string" where
  "year_string y =
     (if 0 \<le> y \<and> y \<le> 9999 then pad_num 4 y
      else (if y < 0 then CHR ''-'' else CHR ''+'') # pad_num 6 (abs y))"

fun iso_date :: "int \<times> int \<times> int \<Rightarrow> string" where
  "iso_date (y, m, d) = year_string y @ ''-'' @ pad_num 2 m @ ''-'' @ pad_num 2 d"

definition iso_time :: "int \<Rightarrow> string" where
  "iso_time ms =
     pad_num 2 (ms div 3600000) @ '':'' @ pad_num 2 (ms div 60000 mod 60) @ '':''
     @ pad_num 2 (ms div 1000 mod 60) @ ''.'' @ pad_num 3 (ms mod 1000)"

definition toISOString :: "int \<Rightarrow> error + string" where
  "toISOString t =
     (if t < - 8640000000000000 \<or> 8640000000000000 < t
      then Inl (RangeError ''Invalid time value'')
      else Inr (iso_date (civil_from_days (t div 86400000)) @ ''T''
                @ iso_time (t mod 86400000) @ ''Z''))"

section \<open>Data model\<close>

text \<open>
  One element of the array \<open>totals\<close>: four fields in the earlier version of the program
  (part_000, line 77), and the estimated time as a fifth in src/index.ts (line 63).
\<close>

record total_base =
  block_height :: int
  queried_micro_stx :: int
  vested_micro_stx :: int
  total_calculated :: int

record total_entry = total_base +
  date_time :: string

text \<open>
  The ledger behind the Postgres client, as the answers to the five queries of
  src/index.ts, with rows of the types the code declares for them:
  \<open>STX_LATEST_BLOCK_HEIGHT_QUERY\<close>, \<open>STX_VESTED_BY_BLOCK_QUERY\<close> (rows of block id and amount),
  \<open>LOCK_TRANSFER_BLOCK_IDS_QUERY\<close>, \<open>STX_TOTAL_AT_BLOCK_QUERY\<close> (parameter: block height) and
  \<open>STX_TOTAL_VESTED_BY_BLOCK_QUERY\<close> (parameters: block height and floor).
\<close>

record store =
  latest_block_height :: int
  vested_by_block :: "(int \<times> int) list"
  lock_transfer_block_ids :: "int list"
  stx_total_at_block :: "int \<Rightarrow> int"
  stx_total_vested_by_block :: "int \<Rightarrow> int \<Rightarrow> int"

section \<open>The accumulator loop of src/index.ts\<close>

text \<open>\<open>xs.slice(-1)[0]\<close>: the last element, \<open>undefined\<close> on an empty array.\<close>

definition slice_last :: "'a list \<Rightarrow> 'a option" where
  "slice_last xs = (if xs = [] then None else Some (last xs))"

text \<open>
  Line 60: \<open>Math.max(a, b) + 5\<close>. \<open>Math.max\<close> of an \<open>undefined\<close> argument is NaN, and so is
  NaN + 5; \<open>None\<close> stands for NaN.
\<close>

definition lastBlockHeight :: "int list \<Rightarrow> int list \<Rightarrow> int option" where
  "lastBlockHeight lockTransferBlockHeights vestingBlockHeights =
     (case (slice_last lockTransferBlockHeights, slice_last vestingBlockHeights) of
        (Some a, Some b) \<Rightarrow> Some (max a b + 5)
      | _ \<Rightarrow> None)"

text \<open>
  Lines 65 to 91, the body of the loop: the entry built for \<open>blockHeight\<close> from the entries
  pushed so far. \<open>totals[totals.length - 1]\<close> is \<open>slice_last totals\<close>; the vested branch
  guards it with \<open>?.\<close> and \<open>??\<close>, the queried branch reads a property of it unguarded, which
  throws a TypeError on \<open>undefined\<close>.
\<close>

definition loop_body ::
  "store \<Rightarrow> int \<Rightarrow> int \<Rightarrow> int list \<Rightarrow> int list \<Rightarrow> total_entry list \<Rightarrow> int \<Rightarrow> error + total_entry" where
  "loop_body s currentBlockHeight currentDate vestingBlockHeights lockTransferBlockHeights totals blockHeight =
     (let blockTimePassed = (blockHeight - currentBlockHeight) * 10 * 60 in
      case toISOString ((currentDate + blockTimePassed) * 1000) of
        Inl e \<Rightarrow> Inl e
      | Inr blockTimestamp \<Rightarrow>
          (let vested =
                 (if blockHeight \<in> set vestingBlockHeights
                  then stx_total_vested_by_block s blockHeight currentBlockHeight
                  else (case slice_last totals of None \<Rightarrow> 0 | Some p \<Rightarrow> vested_micro_stx p))
           in
             if blockHeight \<in> set lockTransferBlockHeights \<or> blockHeight = currentBlockHeight
             then
               (let queried = stx_total_at_block s blockHeight in
                Inr \<lparr> block_height = blockHeight, queried_micro_stx = queried,
                      vested_micro_stx = vested, total_calculated = queried + vested,
                      date_time = blockTimestamp \<rparr>)
             else
               (case slice_last totals of
                  None \<Rightarrow> Inl (TypeError ''Cannot read properties of undefined'')
                | Some p \<Rightarrow>
                    Inr \<lparr> block_height = blockHeight, queried_micro_stx = queried_micro_stx p,
                          vested_micro_stx = vested,
                          total_calculated = queried_micro_stx p + vested,
                          date_time = blockTimestamp \<rparr>)))"

text \<open>
  Line 64: \<open>for (let blockHeight = ...; blockHeight < lastBlockHeight; blockHeight++)\<close>,
  pushing the entry of each step; an exception in the body leaves the loop.
\<close>

function for_loop ::
  "('a list \<Rightarrow> int \<Rightarrow> error + 'a) \<Rightarrow> int \<Rightarrow> int \<Rightarrow> 'a list \<Rightarrow> error + 'a list" where
  "for_loop body lastHeight blockHeight totals =
     (if blockHeight < lastHeight
      then (case body totals blockHeight of
              Inl e \<Rightarrow> Inl e
            | Inr t \<Rightarrow> for_loop body lastHeight (blockHeight + 1) (totals @ [t]))
      else Inr totals)"
  by pat_completeness auto
termination
  by (relation "measure (\<lambda>(body, lastHeight, blockHeight, totals). nat (lastHeight - blockHeight))") auto

text \<open>Lines 60 to 93: a NaN bound makes the loop condition false at once.\<close>

definition accumulate ::
  "store \<Rightarrow> int \<Rightarrow> int \<Rightarrow> int list \<Rightarrow> int list \<Rightarrow> error + total_entry list" where
  "accumulate s currentBlockHeight currentDate vestingBlockHeights lockTransferBlockHeights =
     (case lastBlockHeight lockTransferBlockHeights vestingBlockHeights of
        None \<Rightarrow> Inr []
      | Some l \<Rightarrow>
          for_loop (loop_body s currentBlockHeight currentDate vestingBlockHeights lockTransferBlockHeights)
            l currentBlockHeight [])"

text \<open>
  The same \<open>for\<close> statement read step by step: the states \<open>(blockHeight, totals)\<close> in which
  the loop condition is evaluated. The loop starts with the initial height and an empty
  array; an iteration whose body returns an entry leads to the next height with the entry
  pushed.
\<close>

inductive loop_states ::
  "('a list \<Rightarrow> int \<Rightarrow> error + 'a) \<Rightarrow> int \<Rightarrow> int \<Rightarrow> int \<times> 'a list \<Rightarrow> bool"
  for body :: "'a list \<Rightarrow> int \<Rightarrow> error + 'a" and lastHeight :: int and start :: int where
  loop_start: "loop_states body lastHeight start (start, [])"
| loop_next:
    "loop_states body lastHeight start (blockHeight, totals) \<Longrightarrow> blockHeight < lastHeight \<Longrightarrow>
     body totals blockHeight = Inr t \<Longrightarrow>
     loop_states body lastHeight start (blockHeight + 1, totals @ [t])"

code_pred loop_states .

section \<open>Sanity checks, pruning and output of src/index.ts\<close>

text \<open>
  Lines 96 to 105. \<open>totals[0]\<close> is \<open>undefined\<close> on an empty array and reading its property
  throws a TypeError; a failed \<open>assert\<close> throws an AssertionError with the given message,
  which the \<open>catch\<close> block logs and throws again.
\<close>

function check_loop :: "total_entry list \<Rightarrow> nat \<Rightarrow> error + unit" where
  "check_loop totals i =
     (if i < length totals
      then
        (if block_height (totals ! i) \<noteq> block_height (totals ! (i - 1)) + 1
         then Inl (AssertionError ''unordered blocks!'')
         else if \<not> total_calculated (totals ! i) \<ge> total_calculated (totals ! (i - 1))
         then Inl (AssertionError ''total balance should always increase!'')
         else check_loop totals (i + 1))
      else Inr ())"
  by pat_completeness auto
termination
  by (relation "measure (\<lambda>(totals, i). length totals - i)") auto

definition sanity_checks :: "int \<Rightarrow> total_entry list \<Rightarrow> error + unit" where
  "sanity_checks currentBlockHeight totals =
     (case totals of
        [] \<Rightarrow> Inl (TypeError ''Cannot read properties of undefined'')
      | t0 # rest \<Rightarrow>
          if block_height t0 \<noteq> currentBlockHeight
          then Inl (AssertionError ''unexpected initial block height'')
          else check_loop totals 1)"

text \<open>
  Lines 108 to 112: \<open>for (let i = totals.length - 1; i > 0; i--)\<close>, removing entry \<open>i\<close> in
  place with \<open>splice(i, 1)\<close> when its total equals that of entry \<open>i - 1\<close>. The index is
  a natural number: on an empty array the start \<open>-1\<close> and the start \<open>0\<close> both skip the loop.
\<close>

definition splice :: "nat \<Rightarrow> nat \<Rightarrow> 'a list \<Rightarrow> 'a list" where
  "splice i n xs = take i xs @ drop (i + n) xs"

function prune_loop :: "nat \<Rightarrow> total_entry list \<Rightarrow> total_entry list" where
  "prune_loop i totals =
     (if i > 0
      then prune_loop (i - 1)
             (if total_calculated (totals ! i) = total_calculated (totals ! (i - 1))
              then splice i 1 totals else totals)
      else totals)"
  by pat_completeness auto
termination
  by (relation "measure (\<lambda>(i, totals). i)") auto

definition prune :: "total_entry list \<Rightarrow> total_entry list" where
  "prune totals = prune_loop (length totals - 1) totals"

text \<open>
  Lines 114 to 116: \<open>.replace(/\B(?=(\d{3})+(?!\d))/g, ',')\<close> puts a comma at every
  position that is not a word boundary and is followed by a run of digits whose length is
  a positive multiple of three. \<open>prev\<close> is the character before the position.
\<close>

definition is_digit :: "char \<Rightarrow> bool" where
  "is_digit c = (let n = (of_char c :: nat) in 48 \<le> n \<and> n \<le> 57)"

definition is_word :: "char \<Rightarrow> bool" where
  "is_word c =
     (let n = (of_char c :: nat)
      in (48 \<le> n \<and> n \<le> 57) \<or> (65 \<le> n \<and> n \<le> 90) \<or> (97 \<le> n \<and> n \<le> 122) \<or> n = 95)"

fun add_commas :: "char option \<Rightarrow> string \<Rightarrow> string" where
  "add_commas prev [] = []"
| "add_commas prev (c # cs) =
     (if (case prev of None \<Rightarrow> False | Some p \<Rightarrow> is_word p) = is_word c
         \<and> 0 < length (takeWhile is_digit (c # cs))
         \<and> length (takeWhile is_digit (c # cs)) mod 3 = 0
      then '','' else [])
     @ c # add_commas (Some c) cs"

definition final_supply :: "int \<Rightarrow> string" where
  "final_supply amount = add_commas None (slice_front 6 (show_int amount))"

text \<open>Lines 121 to 129: the bytes written to \<open>supply.csv\<close>.\<close>

definition crlf :: string where
  "crlf = [CHR 0x0D, CHR 0x0A]"

definition stx_string :: "int \<Rightarrow> string" where
  "stx_string amount =
     (let stxInt = slice_front 6 (show_int amount);
          stxFrac = slice_back 6 (show_int amount)
      in stxInt @ ''.'' @ stxFrac)"

definition csv_row :: "total_entry \<Rightarrow> string" where
  "csv_row entry =
     show_int (block_height entry) @ '','' @ show_int (total_calculated entry) @ '',''
     @ stx_string (total_calculated entry) @ '','' @ date_time entry @ crlf"

definition csv_file :: "total_entry list \<Rightarrow> string" where
  "csv_file totals =
     (''block_height,unlocked_micro_stx,unlocked_stx,estimated_time'' @ crlf)
     @ concat (map csv_row totals)"

section \<open>The routine \<open>run\<close> of src/index.ts\<close>

text \<open>
  \<open>produce\<close> is lines 44 to 112: the queries, the loop, the sanity checks and the pruning.
  \<open>now\<close> is the reading of \<open>Date.now()\<close> in milliseconds; \<open>Math.round(now / 1000)\<close> rounds
  a half upwards.
\<close>

definition produce :: "store \<Rightarrow> int \<Rightarrow> error + total_entry list" where
  "produce s now =
     (let currentBlockHeight = latest_block_height s;
          currentDate = (now + 500) div 1000;
          vestingBlockHeights = map fst (vested_by_block s);
          lockTransferBlockHeights = lock_transfer_block_ids s
      in case accumulate s currentBlockHeight currentDate vestingBlockHeights lockTransferBlockHeights of
           Inl e \<Rightarrow> Inl e
         | Inr totals \<Rightarrow>
             (case sanity_checks currentBlockHeight totals of
                Inl e \<Rightarrow> Inl e
              | Inr u \<Rightarrow> Inr (prune totals)))"

text \<open>
  Lines 114 to 129 after it: the assertion on the final supply, then the CSV file. The
  result of a completed run is the content of \<open>supply.csv\<close>.
\<close>

definition run :: "store \<Rightarrow> int \<Rightarrow> error + string" where
  "run s now =
     (case produce s now of
        Inl e \<Rightarrow> Inl e
      | Inr totals \<Rightarrow>
          (case slice_last totals of
             None \<Rightarrow> Inl (TypeError ''Cannot read properties of undefined'')
           | Some t \<Rightarrow>
               (let finalSupply = final_supply (total_calculated t) in
                if finalSupply \<noteq> ''1,352,464,598''
                then Inl (AssertionError ''incorrect final unlocked balance'')
                else Inr (csv_file totals))))"

section \<open>The other versions of the program (part_000)\<close>

text \<open>Lines 199 to 204 and 206 to 208 of part_000: the helpers of the later version.\<close>

definition microStxToStx :: "string \<Rightarrow> string" where
  "microStxToStx microStx =
     (let padded = padStart 7 CHR ''0'' microStx;
          stxInt = slice_front 6 padded;
          stxFrac = slice_back 6 padded
      in stxInt @ ''.'' @ stxFrac)"

definition microStxToReadable :: "string \<Rightarrow> string" where
  "microStxToReadable microStx = add_commas None (slice_front 6 (padStart 7 CHR ''0'' microStx))"

text \<open>
  Lines 79 to 94 of part_000, the body of the loop in the earlier version. The vested
  amount is the previous one plus the release found at this height. The queried amount
  is assigned in three places: from the query at a lock-transfer height (line 87), then,
  in an \<open>if\<close> that follows without \<open>else\<close>, from the initial supply at the initial
  height (line 89) and from the previous entry at every other height (line 92).
\<close>

definition part000_loop_body ::
  "int \<Rightarrow> int \<Rightarrow> (int \<times> int) list \<Rightarrow> int list \<Rightarrow> (int \<Rightarrow> int) \<Rightarrow> total_base list \<Rightarrow> int
     \<Rightarrow> error + total_base" where
  "part000_loop_body initBlockHeight initStxSupply vestingResults lockTransferBlockHeights
       stx_total_txs_at_block totals blockHeight =
     (let vested0 = (case slice_last totals of None \<Rightarrow> 0 | Some p \<Rightarrow> vested_micro_stx p);
          vested = (case find (\<lambda>r. fst r = blockHeight) vestingResults of
                      None \<Rightarrow> vested0
                    | Some vestingBlock \<Rightarrow> vested0 + snd vestingBlock);
          queried0 = (if blockHeight \<in> set lockTransferBlockHeights
                      then stx_total_txs_at_block blockHeight else 0)
      in
        if blockHeight = initBlockHeight
        then Inr \<lparr> block_height = blockHeight, queried_micro_stx = initStxSupply,
                   vested_micro_stx = vested, total_calculated = initStxSupply + vested \<rparr>
        else
          (case slice_last totals of
             None \<Rightarrow> Inl (TypeError ''Cannot read properties of undefined'')
           | Some p \<Rightarrow>
               Inr \<lparr> block_height = blockHeight, queried_micro_stx = queried_micro_stx p,
                     vested_micro_stx = vested,
                     total_calculated = queried_micro_stx p + vested \<rparr>))"

definition part000_accumulate ::
  "int \<Rightarrow> int \<Rightarrow> (int \<times> int) list \<Rightarrow> int list \<Rightarrow> (int \<Rightarrow> int) \<Rightarrow> error + total_base list" where
  "part000_accumulate initBlockHeight initStxSupply vestingResults lockTransferBlockHeights
       stx_total_txs_at_block =
     (case lastBlockHeight lockTransferBlockHeights (map fst vestingResults) of
        None \<Rightarrow> Inr []
      | Some l \<Rightarrow>
          for_loop (part000_loop_body initBlockHeight initStxSupply vestingResults
                      lockTransferBlockHeights stx_total_txs_at_block)
            l initBlockHeight [])"

section \<open>The forward scan of the design notes\<close>

text \<open>
  The design notes describe the pruning as a single forward scan that retains an entry
  only if its total differs from the total of the previously retained entry. This
  definition follows those words, not the code; \<open>prev\<close> is the previously retained
  entry, absent at the start.
\<close>

fun forward_scan :: "total_entry option \<Rightarrow> total_entry list \<Rightarrow> total_entry list" where
  "forward_scan prev [] = []"
| "forward_scan prev (e # es) =
     (case prev of
        None \<Rightarrow> e # forward_scan (Some e) es
      | Some p \<Rightarrow>
          if total_calculated e \<noteq> total_calculated p
          then e # forward_scan (Some e) es
          else forward_scan prev es)"

definition forward_prune :: "total_entry list \<Rightarrow> total_entry list" where
  "forward_prune totals = forward_scan None totals"

text \<open>The entry retained last once the scan has gone through \<open>es\<close>.\<close>

definition scan_state :: "total_entry option \<Rightarrow> total_entry list \<Rightarrow> total_entry option" where
  "scan_state prev es = (if forward_scan prev es = [] then prev else Some (last (forward_scan prev es)))"

section \<open>Reading a number back\<close>

text \<open>
  The value of a string of decimal digits, used to show that the rendering of a number
  determines the number.
\<close>

definition digit_val :: "char \<Rightarrow> nat" where
  "digit_val c = (of_char c :: nat) - 48"

definition read_nat :: "string \<Rightarrow> nat" where
  "read_nat s = foldl (\<lambda>a c. 10 * a + digit_val c) 0 s"

section \<open>Two ledgers\<close>

text \<open>
  The scenario of the specification: one account unlocking 1,000,000 micro-units at block
  100 and a vesting release of 500,000 micro-units at block 105, the latest block being 100.
\<close>

definition scenario_store :: store where
  "scenario_store =
     \<lparr> latest_block_height = 100,
       vested_by_block = [(105, 500000)],
       lock_transfer_block_ids = [100],
       stx_total_at_block = (\<lambda>b. if 100 \<le> b then 1000000 else 0),
       stx_total_vested_by_block = (\<lambda>b fl. if fl < 105 \<and> 105 \<le> b then 500000 else 0) \<rparr>"

definition scenario_entry :: "int \<Rightarrow> int \<Rightarrow> string \<Rightarrow> total_entry" where
  "scenario_entry b v t =
     \<lparr> block_height = b, queried_micro_stx = 1000000, vested_micro_stx = v,
       total_calculated = 1000000 + v, date_time = t \<rparr>"

definition scenario_totals :: "total_entry list" where
  "scenario_totals =
     [scenario_entry 100 0 ''2020-09-13T12:26:40.000Z'',
      scenario_entry 101 0 ''2020-09-13T12:36:40.000Z'',
      scenario_entry 102 0 ''2020-09-13T12:46:40.000Z'',
      scenario_entry 103 0 ''2020-09-13T12:56:40.000Z'',
      scenario_entry 104 0 ''2020-09-13T13:06:40.000Z'',
      scenario_entry 105 500000 ''2020-09-13T13:16:40.000Z'',
      scenario_entry 106 500000 ''2020-09-13T13:26:40.000Z'',
      scenario_entry 107 500000 ''2020-09-13T13:36:40.000Z'',
      scenario_entry 108 500000 ''2020-09-13T13:46:40.000Z'',
      scenario_entry 109 500000 ''2020-09-13T13:56:40.000Z'']"

text \<open>
  A ledger whose final supply is the one the program asserts: 500 micro-units liquid at
  block 100, a vesting release of 1,000 at block 101 and the rest unlocking at block 102.
\<close>

definition launch_store :: store where
  "launch_store =
     \<lparr> latest_block_height = 100,
       vested_by_block = [(101, 1000)],
       lock_transfer_block_ids = [100, 102],
       stx_total_at_block = (\<lambda>b. if 102 \<le> b then 1352464597999000 else 500),
       stx_total_vested_by_block = (\<lambda>b fl. if fl < 101 \<and> 101 \<le> b then 1000 else 0) \<rparr>"

definition launch_totals :: "string \<Rightarrow> string \<Rightarrow> string \<Rightarrow> total_entry list" where
  "launch_totals t0 t1 t2 =
     [\<lparr> block_height = 100, queried_micro_stx = 500, vested_micro_stx = 0,
        total_calculated = 500, date_time = t0 \<rparr>,
      \<lparr> block_height = 101, queried_micro_stx = 500, vested_micro_stx = 1000,
        total_calculated = 1500, date_time = t1 \<rparr>,
      \<lparr> block_height = 102, queried_micro_stx = 1352464597999000, vested_micro_stx = 1000,
        total_calculated = 1352464598000000, date_time = t2 \<rparr>]"

text \<open>
  A ledger whose liquid balance drops from 7 to 3 micro-units at the lock-transfer height
  101, and the series the loop produces from it.
\<close>

definition shrinking_store :: store where
  "shrinking_store =
     \<lparr> latest_block_height = 100,
       vested_by_block = [(100, 2)],
       lock_transfer_block_ids = [100, 101],
       stx_total_at_block = (\<lambda>b. if 101 \<le> b then 3 else 7),
       stx_total_vested_by_block = (\<lambda>b fl. if fl < 100 \<and> 100 \<le> b then 2 else 0) \<rparr>"

definition shrinking_entry :: "int \<Rightarrow> int \<Rightarrow> string \<Rightarrow> total_entry" where
  "shrinking_entry b q t =
     \<lparr> block_height = b, queried_micro_stx = q, vested_micro_stx = 0,
       total_calculated = q, date_time = t \<rparr>"

definition shrinking_totals :: "total_entry list" where
  "shrinking_totals =
     [shrinking_entry 100 7 ''2020-09-13T12:26:40.000Z'',
      shrinking_entry 101 3 ''2020-09-13T12:36:40.000Z'',
      shrinking_entry 102 3 ''2020-09-13T12:46:40.000Z'',
      shrinking_entry 103 3 ''2020-09-13T12:56:40.000Z'',
      shrinking_entry 104 3 ''2020-09-13T13:06:40.000Z'',
      shrinking_entry 105 3 ''2020-09-13T13:16:40.000Z'']"

text \<open>Two entries that differ at most in the estimated time.\<close>

definition same_amounts :: "total_entry \<Rightarrow> total_entry \<Rightarrow> bool" where
  "same_amounts a b \<longleftrightarrow>
     block_height a = block_height b \<and> queried_micro_stx a = queried_micro_stx b
     \<and> vested_micro_stx a = vested_micro_stx b \<and> total_calculated a = total_calculated b"

text \<open>
  A ledger for the earlier version: 5 micro-units liquid at the initial block 100, a
  vesting release of 3 at block 101, and a lock-transfer height 102 from which the
  balance query answers 9.
\<close>

definition part000_query :: "int \<Rightarrow> int" where
  "part000_query b = (if 102 \<le> b then 9 else 5)"

definition part000_entry :: "int \<Rightarrow> int \<Rightarrow> total_base" where
  "part000_entry b v =
     \<lparr> block_height = b, queried_micro_stx = 5, vested_micro_stx = v, total_calculated = 5 + v \<rparr>"

definition part000_totals :: "total_base list" where
  "part000_totals =
     [part000_entry 100 0, part000_entry 101 3, part000_entry 102 3, part000_entry 103 3,
      part000_entry 104 3, part000_entry 105 3, part000_entry 106 3]"

section \<open>The loop, step by step\<close>

declare for_loop.simps [simp del]

text \<open>Unfolding these evaluates the date and number rendering on literals.\<close>

lemma replicate_numeral: "replicate (numeral n) x = x # replicate (pred_numeral n) x"
  by (simp add: numeral_eq_Suc)

lemmas iso_defs = toISOString_def civil_from_days_def civil_from_era_def
  civil_from_day_of_year_def civil_from_month_def day_of_year_def year_of_era_def
  year_string_def pad_num_def padStart_def digit_char_def iso_time_def replicate_numeral

lemma slice_last_snoc: "slice_last (xs @ [x]) = Some x"
  by (simp add: slice_last_def)

lemma slice_last_take:
  "0 < k \<Longrightarrow> k \<le> length xs \<Longrightarrow> slice_last (take k xs) = Some (xs ! (k - 1))"
  by (cases k) (auto simp: slice_last_def last_conv_nth min_def)

lemma for_loop_Inr:
  "for_loop body l bh ts0 = Inr ts \<Longrightarrow>
     \<exists>ys. ts = ts0 @ ys \<and> length ys = nat (l - bh)
        \<and> (\<forall>k < length ys. body (ts0 @ take k ys) (bh + int k) = Inr (ys ! k))"
proof (induction body l bh ts0 rule: for_loop.induct)
  case (1 body l bh ts0)
  show ?case
  proof (cases "bh < l")
    case False
    with "1.prems" show ?thesis by (simp add: for_loop.simps)
  next
    case True
    with "1.prems" obtain t where t: "body ts0 bh = Inr t"
      and rec: "for_loop body l (bh + 1) (ts0 @ [t]) = Inr ts"
      by (auto simp: for_loop.simps [of body l bh ts0] split: sum.splits)
    from "1.IH" [OF True t rec] obtain ys where ys: "ts = (ts0 @ [t]) @ ys"
      "length ys = nat (l - (bh + 1))"
      "\<forall>k < length ys. body ((ts0 @ [t]) @ take k ys) (bh + 1 + int k) = Inr (ys ! k)"
      by blast
    have "\<forall>k < length (t # ys). body (ts0 @ take k (t # ys)) (bh + int k) = Inr ((t # ys) ! k)"
    proof (intro allI impI)
      fix k assume k: "k < length (t # ys)"
      show "body (ts0 @ take k (t # ys)) (bh + int k) = Inr ((t # ys) ! k)"
      proof (cases k)
        case 0
        with t show ?thesis by simp
      next
        case (Suc j)
        with k ys(3) have "body ((ts0 @ [t]) @ take j ys) (bh + 1 + int j) = Inr (ys ! j)"
          by simp
        with Suc show ?thesis by (simp add: add.commute add.left_commute)
      qed
    qed
    moreover have "length (t # ys) = nat (l - bh)" using ys(2) True by simp
    moreover have "ts = ts0 @ (t # ys)" using ys(1) by simp
    ultimately show ?thesis by blast
  qed
qed

lemma accumulate_Inr:
  assumes "accumulate s cur d vh lh = Inr totals"
  shows "\<forall>k < length totals. loop_body s cur d vh lh (take k totals) (cur + int k) = Inr (totals ! k)"
proof (cases "lastBlockHeight lh vh")
  case None
  with assms show ?thesis by (simp add: accumulate_def)
next
  case (Some l)
  with assms have "for_loop (loop_body s cur d vh lh) l cur [] = Inr totals"
    by (simp add: accumulate_def)
  from for_loop_Inr [OF this] show ?thesis by simp
qed

lemma accumulate_length:
  assumes "accumulate s cur d vh lh = Inr totals"
  shows "length totals = (case lastBlockHeight lh vh of None \<Rightarrow> 0 | Some l \<Rightarrow> nat (l - cur))"
proof (cases "lastBlockHeight lh vh")
  case None
  with assms show ?thesis by (simp add: accumulate_def)
next
  case (Some l)
  with assms have "for_loop (loop_body s cur d vh lh) l cur [] = Inr totals"
    by (simp add: accumulate_def)
  from for_loop_Inr [OF this] Some show ?thesis by simp
qed

lemma loop_body_block_height:
  "loop_body s cur d vh lh ts bh = Inr t \<Longrightarrow> block_height t = bh"
  by (auto simp: loop_body_def Let_def split: sum.splits if_splits option.splits)

lemma loop_body_total:
  "loop_body s cur d vh lh ts bh = Inr t \<Longrightarrow>
     total_calculated t = queried_micro_stx t + vested_micro_stx t"
  by (auto simp: loop_body_def Let_def split: sum.splits if_splits option.splits)

lemma loop_body_carry:
  "loop_body s cur d vh lh ts bh = Inr t \<Longrightarrow> bh \<notin> set vh \<Longrightarrow> bh \<notin> set lh \<Longrightarrow> bh \<noteq> cur \<Longrightarrow>
     \<exists>p. slice_last ts = Some p \<and> vested_micro_stx t = vested_micro_stx p
          \<and> queried_micro_stx t = queried_micro_stx p"
  by (auto simp: loop_body_def Let_def split: sum.splits if_splits option.splits)

lemma loop_body_fresh:
  "loop_body s cur d vh lh ts bh = Inr t \<Longrightarrow> bh \<in> set lh \<or> bh = cur \<Longrightarrow>
     queried_micro_stx t = stx_total_at_block s bh"
  by (auto simp: loop_body_def Let_def split: sum.splits if_splits option.splits)

lemma accumulate_block_height:
  assumes "accumulate s cur d vh lh = Inr totals" and "k < length totals"
  shows "block_height (totals ! k) = cur + int k"
  using accumulate_Inr [OF assms(1)] assms(2) loop_body_block_height by blast

text \<open>
  Claim C1. At a block height that is neither a vesting-release height nor a
  lock-transfer height nor the initial height, the entry the loop produces is not the
  first one, and its total, its vested component and its queried component equal those
  of the entry just before it.
\<close>

theorem carry_forward:
  assumes acc: "accumulate s cur d vh lh = Inr totals"
    and i: "i < length totals"
    and nv: "block_height (totals ! i) \<notin> set vh"
    and nl: "block_height (totals ! i) \<notin> set lh"
    and ni: "block_height (totals ! i) \<noteq> cur"
  shows "0 < i \<and> total_calculated (totals ! i) = total_calculated (totals ! (i - 1))
       \<and> vested_micro_stx (totals ! i) = vested_micro_stx (totals ! (i - 1))
       \<and> queried_micro_stx (totals ! i) = queried_micro_stx (totals ! (i - 1))"
proof -
  have bh: "block_height (totals ! i) = cur + int i"
    using accumulate_block_height [OF acc i] .
  with ni have pos: "0 < i" by (cases i) auto
  have body: "loop_body s cur d vh lh (take i totals) (cur + int i) = Inr (totals ! i)"
    using accumulate_Inr [OF acc] i by blast
  have prev: "slice_last (take i totals) = Some (totals ! (i - 1))"
    using slice_last_take [OF pos, of totals] i by simp
  from loop_body_carry [OF body] nv nl ni bh prev
  have v: "vested_micro_stx (totals ! i) = vested_micro_stx (totals ! (i - 1))"
    and q: "queried_micro_stx (totals ! i) = queried_micro_stx (totals ! (i - 1))"
    by auto
  have body': "loop_body s cur d vh lh (take (i - 1) totals) (cur + int (i - 1)) = Inr (totals ! (i - 1))"
    using accumulate_Inr [OF acc] i by (meson less_imp_diff_less)
  have "total_calculated (totals ! i) = total_calculated (totals ! (i - 1))"
    using loop_body_total [OF body] loop_body_total [OF body'] v q by simp
  with pos v q show ?thesis by simp
qed

lemma scenario_accumulate:
  "accumulate scenario_store 100 1600000000 [105] [100] = Inr scenario_totals"
  by (simp add: accumulate_def lastBlockHeight_def for_loop.simps loop_body_def
      scenario_store_def scenario_totals_def scenario_entry_def iso_defs slice_last_def)

theorem carry_forward_witness:
  "accumulate scenario_store 100 1600000000 [105] [100] = Inr scenario_totals
   \<and> (1::nat) < length scenario_totals
   \<and> block_height (scenario_totals ! 1) \<notin> set [105]
   \<and> block_height (scenario_totals ! 1) \<notin> set [100]
   \<and> block_height (scenario_totals ! 1) \<noteq> 100
   \<and> total_calculated (scenario_totals ! 1) = total_calculated (scenario_totals ! 0)
   \<and> vested_micro_stx (scenario_totals ! 1) = vested_micro_stx (scenario_totals ! 0)
   \<and> queried_micro_stx (scenario_totals ! 1) = queried_micro_stx (scenario_totals ! 0)"
  using carry_forward [OF scenario_accumulate, of 1]
  by (simp add: scenario_totals_def scenario_entry_def scenario_accumulate)

lemma lastBlockHeight_Some:
  "lh \<noteq> [] \<Longrightarrow> vh \<noteq> [] \<Longrightarrow> lastBlockHeight lh vh = Some (max (last lh) (last vh) + 5)"
  by (simp add: lastBlockHeight_def slice_last_def)

lemma lastBlockHeight_None:
  "lh = [] \<or> vh = [] \<Longrightarrow> lastBlockHeight lh vh = None"
  by (auto simp: lastBlockHeight_def slice_last_def)

text \<open>
  Claim C5, as amended. When both lists of heights are non-empty, a completed loop has
  visited exactly the heights from the current block height up to
  \<open>max (last lock-transfer height) (last vesting height) + 4\<close>, in increasing order and one
  at a time: the loop condition is \<open>blockHeight < lastBlockHeight\<close>, so the bound
  \<open>max + 5\<close> itself is not visited.
\<close>

theorem visited_heights:
  assumes acc: "accumulate s cur d vh lh = Inr totals"
    and lh: "lh \<noteq> []" and vh: "vh \<noteq> []"
  shows "map block_height totals = [cur .. max (last lh) (last vh) + 4]"
proof (rule nth_equalityI)
  have len: "length totals = nat (max (last lh) (last vh) + 5 - cur)"
    using accumulate_length [OF acc] lastBlockHeight_Some [OF lh vh] by simp
  then show "length (map block_height totals) = length [cur .. max (last lh) (last vh) + 4]"
    by simp
  fix k assume "k < length (map block_height totals)"
  then have k: "k < length totals" by simp
  with len have "cur + int k \<le> max (last lh) (last vh) + 4" by linarith
  then show "map block_height totals ! k = [cur .. max (last lh) (last vh) + 4] ! k"
    using accumulate_block_height [OF acc k] k by simp
qed

theorem visited_heights_witness:
  "accumulate scenario_store 100 1600000000 [105] [100] = Inr scenario_totals
   \<and> [100::int] \<noteq> [] \<and> [105::int] \<noteq> []
   \<and> map block_height scenario_totals = [100, 101, 102, 103, 104, 105, 106, 107, 108, 109]
   \<and> max (last [100]) (last [105]) + 4 = (109::int)"
  using visited_heights [OF scenario_accumulate]
  by (simp add: scenario_accumulate upto_rec1)

text \<open>
  In the scenario the last visited height is 109, not \<open>max 100 105 + 5 = 110\<close>.
\<close>

theorem terminal_height_counterexample:
  "accumulate scenario_store 100 1600000000 [105] [100] = Inr scenario_totals
   \<and> block_height (last scenario_totals) = 109
   \<and> max (last [100]) (last [105]) + 5 = (110::int)"
  by (simp add: scenario_accumulate scenario_totals_def scenario_entry_def)

lemma accumulate_no_heights:
  "lh = [] \<or> vh = [] \<Longrightarrow> accumulate s cur d vh lh = Inr []"
  by (simp add: accumulate_def lastBlockHeight_None)

lemma toISOString_error: "toISOString t = Inl e \<Longrightarrow> e = RangeError ''Invalid time value''"
  by (auto simp: toISOString_def split: if_splits)

lemma loop_body_TypeError:
  "loop_body s cur d vh lh ts bh = Inl (TypeError m) \<Longrightarrow> ts = [] \<and> bh \<noteq> cur \<and> bh \<notin> set lh"
  by (auto simp: loop_body_def Let_def slice_last_def split: sum.splits if_splits option.splits
      dest: toISOString_error)

lemma loop_states_nonempty:
  "loop_states body l start st \<Longrightarrow> fst st = start + int (length (snd st))"
  by (induction rule: loop_states.induct) auto

lemma loop_states_result:
  "loop_states body l start st \<Longrightarrow> for_loop body l (fst st) (snd st) = for_loop body l start []"
proof (induction rule: loop_states.induct)
  case loop_start
  show ?case by simp
next
  case (loop_next bh ts t)
  then show ?case by (simp add: for_loop.simps [of body l bh ts])
qed

lemma for_loop_no_TypeError:
  "ts0 \<noteq> [] \<or> bh = cur \<Longrightarrow> for_loop (loop_body s cur d vh lh) l bh ts0 \<noteq> Inl (TypeError m)"
proof (induction "loop_body s cur d vh lh" l bh ts0 rule: for_loop.induct)
  case (1 l bh ts0)
  show ?case
  proof (cases "bh < l")
    case False
    then show ?thesis by (simp add: for_loop.simps)
  next
    case True
    show ?thesis
    proof (cases "loop_body s cur d vh lh ts0 bh")
      case (Inl e)
      with "1.prems" loop_body_TypeError [of s cur d vh lh ts0 bh m] have "e \<noteq> TypeError m"
        by auto
      with True Inl show ?thesis by (simp add: for_loop.simps [of _ l bh ts0])
    next
      case (Inr t)
      from "1.hyps" [OF True Inr] have "for_loop (loop_body s cur d vh lh) l (bh + 1) (ts0 @ [t]) \<noteq> Inl (TypeError m)"
        by simp
      with True Inr show ?thesis by (simp add: for_loop.simps [of _ l bh ts0])
    qed
  qed
qed

text \<open>
  The loop returns its series whenever the estimated times stay within the range of a
  JavaScript date, which holds for every clock reading and horizon of practical size.
\<close>

lemma loop_body_returns:
  assumes "totals \<noteq> [] \<or> bh = cur"
    and "- 8640000000000000 \<le> (d + (bh - cur) * 10 * 60) * 1000"
    and "(d + (bh - cur) * 10 * 60) * 1000 \<le> 8640000000000000"
  shows "\<exists>t. loop_body s cur d vh lh totals bh = Inr t"
proof -
  from assms(2,3) obtain str where "toISOString ((d + (bh - cur) * 10 * 60) * 1000) = Inr str"
    by (auto simp: toISOString_def)
  with assms(1) show ?thesis
    by (auto simp: loop_body_def Let_def slice_last_def)
qed

lemma for_loop_returns:
  assumes "ts0 \<noteq> [] \<or> bh = cur"
    and "\<forall>b. bh \<le> b \<and> b < l \<longrightarrow>
           - 8640000000000000 \<le> (d + (b - cur) * 10 * 60) * 1000
           \<and> (d + (b - cur) * 10 * 60) * 1000 \<le> 8640000000000000"
  shows "\<exists>ts. for_loop (loop_body s cur d vh lh) l bh ts0 = Inr ts"
  using assms
proof (induction "loop_body s cur d vh lh" l bh ts0 rule: for_loop.induct)
  case (1 l bh ts0)
  show ?case
  proof (cases "bh < l")
    case False
    then show ?thesis by (simp add: for_loop.simps [of _ l bh])
  next
    case True
    with "1.prems" loop_body_returns [of ts0 bh cur d s vh lh]
    obtain t where t: "loop_body s cur d vh lh ts0 bh = Inr t" by auto
    have "\<exists>ts. for_loop (loop_body s cur d vh lh) l (bh + 1) (ts0 @ [t]) = Inr ts"
      using "1.hyps" [OF True t] "1.prems"(2) by simp
    with True t show ?thesis by (simp add: for_loop.simps [of _ l bh ts0])
  qed
qed

lemma accumulate_returns:
  assumes "0 \<le> d"
    and "\<forall>l. lastBlockHeight lh vh = Some l \<longrightarrow> (d + (l - cur) * 600) * 1000 \<le> 8640000000000000"
  shows "\<exists>totals. accumulate s cur d vh lh = Inr totals"
proof (cases "lastBlockHeight lh vh")
  case None
  then show ?thesis by (simp add: accumulate_def)
next
  case (Some l)
  with assms(2) have up: "(d + (l - cur) * 600) * 1000 \<le> 8640000000000000" by simp
  have "\<forall>b. cur \<le> b \<and> b < l \<longrightarrow>
           - 8640000000000000 \<le> (d + (b - cur) * 10 * 60) * 1000
           \<and> (d + (b - cur) * 10 * 60) * 1000 \<le> 8640000000000000"
    using assms(1) up by auto
  from for_loop_returns [of "[]" cur cur l d s vh lh, OF _ this] Some show ?thesis
    by (simp add: accumulate_def)
qed

text \<open>
  Claim C10. In every state of the loop the body does not throw the TypeError of the
  unguarded read \<open>totals[totals.length - 1].queried_micro_stx\<close>: in the first state the
  height is the initial one, which takes the branch of the query, and in every later
  state the array is non-empty, so the previous entry is defined. Hence the loop as a
  whole never ends with that TypeError.
\<close>

theorem previous_entry_defined:
  assumes st: "loop_states (loop_body s cur d vh lh) l cur (bh, totals)"
  shows "(bh = cur \<longrightarrow> totals = [])
       \<and> (bh \<noteq> cur \<longrightarrow> totals \<noteq> [] \<and> slice_last totals = Some (last totals))
       \<and> loop_body s cur d vh lh totals bh \<noteq> Inl (TypeError m)
       \<and> accumulate s cur d vh lh \<noteq> Inl (TypeError m)"
proof -
  have len: "bh = cur + int (length totals)"
    using loop_states_nonempty [OF st] by simp
  have "accumulate s cur d vh lh \<noteq> Inl (TypeError m)"
    using for_loop_no_TypeError [of "[]" cur cur s d vh lh _ m]
    by (auto simp: accumulate_def split: option.splits)
  moreover have "loop_body s cur d vh lh totals bh \<noteq> Inl (TypeError m)"
    using loop_body_TypeError [of s cur d vh lh totals bh m] len by auto
  ultimately show ?thesis using len by (auto simp: slice_last_def)
qed

lemma scenario_first_body:
  "loop_body scenario_store 100 1600000000 [105] [100] [] 100
     = Inr (scenario_entry 100 0 ''2020-09-13T12:26:40.000Z'')"
  by (simp add: loop_body_def scenario_store_def scenario_entry_def iso_defs slice_last_def)

theorem previous_entry_defined_witness:
  "loop_states (loop_body scenario_store 100 1600000000 [105] [100]) 110 100
     (101, [scenario_entry 100 0 ''2020-09-13T12:26:40.000Z''])
   \<and> slice_last [scenario_entry 100 0 ''2020-09-13T12:26:40.000Z'']
       = Some (scenario_entry 100 0 ''2020-09-13T12:26:40.000Z'')
   \<and> loop_body scenario_store 100 1600000000 [105] [100]
        [scenario_entry 100 0 ''2020-09-13T12:26:40.000Z''] 101 \<noteq> Inl (TypeError ''Cannot read properties of undefined'')
   \<and> accumulate scenario_store 100 1600000000 [105] [100] \<noteq> Inl (TypeError ''Cannot read properties of undefined'')"
proof -
  have "loop_states (loop_body scenario_store 100 1600000000 [105] [100]) 110 100
          (100 + 1, [] @ [scenario_entry 100 0 ''2020-09-13T12:26:40.000Z''])"
    by (rule loop_next [where body = "loop_body scenario_store 100 1600000000 [105] [100]"])
      (simp_all add: loop_start scenario_first_body)
  then have st: "loop_states (loop_body scenario_store 100 1600000000 [105] [100]) 110 100
          (101, [scenario_entry 100 0 ''2020-09-13T12:26:40.000Z''])"
    by simp
  from previous_entry_defined [OF st, of "''Cannot read properties of undefined''"] st show ?thesis by simp
qed

text \<open>
  In src/index.ts the queried component at a lock-transfer height and at the first step
  is the answer of the query at that height.
\<close>

lemma fresh_query_index:
  assumes acc: "accumulate s cur d vh lh = Inr totals"
    and i: "i < length totals"
    and h: "block_height (totals ! i) \<in> set lh \<or> i = 0"
  shows "queried_micro_stx (totals ! i) = stx_total_at_block s (block_height (totals ! i))"
proof -
  have bh: "block_height (totals ! i) = cur + int i"
    using accumulate_block_height [OF acc i] .
  have body: "loop_body s cur d vh lh (take i totals) (cur + int i) = Inr (totals ! i)"
    using accumulate_Inr [OF acc] i by blast
  from h bh have "cur + int i \<in> set lh \<or> cur + int i = cur" by auto
  from loop_body_fresh [OF body this] bh show ?thesis by simp
qed

text \<open>
  Claim C6, on the earlier version (part_000, lines 85 to 93). Height 102 is a
  lock-transfer height and the query answers 9 there, but the entry produced for it
  carries the previous queried amount 5: the assignment of line 87 is overwritten by the
  \<open>else\<close> branch of the \<open>if\<close> of line 88.
\<close>

theorem part000_query_overwritten:
  "part000_accumulate 100 5 [(101, 3)] [100, 102] part000_query = Inr part000_totals
   \<and> block_height (part000_totals ! 2) = 102
   \<and> block_height (part000_totals ! 2) \<in> set [100, 102]
   \<and> queried_micro_stx (part000_totals ! 2) = 5
   \<and> part000_query (block_height (part000_totals ! 2)) = 9"
  by (simp add: part000_accumulate_def lastBlockHeight_def slice_last_def for_loop.simps
      part000_loop_body_def part000_query_def part000_totals_def part000_entry_def)

section \<open>The sanity checks\<close>

declare check_loop.simps [simp del]
declare prune_loop.simps [simp del]

lemma check_loop_ok:
  "check_loop totals i = Inr () \<longleftrightarrow>
     (\<forall>j. i \<le> j \<and> j < length totals \<longrightarrow>
        block_height (totals ! j) = block_height (totals ! (j - 1)) + 1
        \<and> total_calculated (totals ! (j - 1)) \<le> total_calculated (totals ! j))"
proof (induction totals i rule: check_loop.induct)
  case (1 totals i)
  show ?case
  proof (cases "i < length totals")
    case False
    then show ?thesis by (simp add: check_loop.simps [of totals i])
  next
    case True
    let ?ok = "\<lambda>j. block_height (totals ! j) = block_height (totals ! (j - 1)) + 1
        \<and> total_calculated (totals ! (j - 1)) \<le> total_calculated (totals ! j)"
    show ?thesis
    proof (cases "?ok i")
      case False
      with True have "check_loop totals i \<noteq> Inr ()"
        by (auto simp: check_loop.simps [of totals i])
      moreover from False True have "\<not> (\<forall>j. i \<le> j \<and> j < length totals \<longrightarrow> ?ok j)"
        by blast
      ultimately show ?thesis by blast
    next
      case ok: True
      with True have eq: "check_loop totals i = check_loop totals (i + 1)"
        by (auto simp: check_loop.simps [of totals i])
      from ok True "1.IH" have ih: "check_loop totals (i + 1) = Inr () \<longleftrightarrow>
          (\<forall>j. i + 1 \<le> j \<and> j < length totals \<longrightarrow> ?ok j)"
        by auto
      have "(\<forall>j. i \<le> j \<and> j < length totals \<longrightarrow> ?ok j)
          \<longleftrightarrow> (\<forall>j. i + 1 \<le> j \<and> j < length totals \<longrightarrow> ?ok j)"
      proof
        assume a: "\<forall>j. i + 1 \<le> j \<and> j < length totals \<longrightarrow> ?ok j"
        show "\<forall>j. i \<le> j \<and> j < length totals \<longrightarrow> ?ok j"
        proof (intro allI impI)
          fix j assume j: "i \<le> j \<and> j < length totals"
          show "?ok j"
          proof (cases "j = i")
            case True with ok show ?thesis by simp
          next
            case False with j a show ?thesis by simp
          qed
        qed
      qed simp
      with eq ih show ?thesis by simp
    qed
  qed
qed

lemma sanity_checks_ok:
  "sanity_checks cur totals = Inr () \<longleftrightarrow>
     (totals \<noteq> [] \<and> block_height (totals ! 0) = cur
      \<and> (\<forall>i. 0 < i \<and> i < length totals \<longrightarrow>
            block_height (totals ! i) = block_height (totals ! (i - 1)) + 1
            \<and> total_calculated (totals ! (i - 1)) \<le> total_calculated (totals ! i)))"
proof (cases totals)
  case Nil
  then show ?thesis by (simp add: sanity_checks_def)
next
  case (Cons t0 rest)
  have "(\<forall>j. 1 \<le> j \<and> j < length totals \<longrightarrow>
        block_height (totals ! j) = block_height (totals ! (j - 1)) + 1
        \<and> total_calculated (totals ! (j - 1)) \<le> total_calculated (totals ! j))
     \<longleftrightarrow> (\<forall>i. 0 < i \<and> i < length totals \<longrightarrow>
            block_height (totals ! i) = block_height (totals ! (i - 1)) + 1
            \<and> total_calculated (totals ! (i - 1)) \<le> total_calculated (totals ! i))"
    by (simp add: Suc_le_eq)
  with Cons check_loop_ok [of totals 1] show ?thesis
    by (simp add: sanity_checks_def del: One_nat_def)
qed

lemma shrinking_accumulate:
  "accumulate shrinking_store 100 1600000000 [100] [100, 101] = Inr shrinking_totals"
  by (simp add: accumulate_def lastBlockHeight_def for_loop.simps loop_body_def
      shrinking_store_def shrinking_totals_def shrinking_entry_def iso_defs slice_last_def)

lemma shrinking_sanity:
  "sanity_checks 100 shrinking_totals = Inl (AssertionError ''total balance should always increase!'')"
  by (simp add: sanity_checks_def check_loop.simps shrinking_totals_def shrinking_entry_def)

text \<open>
  Claim C2. The sanity checks pass exactly when the series has a first entry whose block
  height is the initial one and every entry after the first has the block height of its
  predecessor plus one and a total that is not smaller. On the series the loop produced,
  the checks throw an error, which is then the outcome of the whole run, exactly when
  one of these conditions fails; on an empty series the check of the first entry fails
  by reading \<open>totals[0]\<close>.
\<close>

theorem sanity_checks_abort:
  "(sanity_checks cur totals = Inr () \<longleftrightarrow>
      totals \<noteq> [] \<and> block_height (totals ! 0) = cur
      \<and> (\<forall>i. 0 < i \<and> i < length totals \<longrightarrow>
            block_height (totals ! i) = block_height (totals ! (i - 1)) + 1
            \<and> total_calculated (totals ! (i - 1)) \<le> total_calculated (totals ! i)))
   \<and> (accumulate s (latest_block_height s) ((now + 500) div 1000)
         (map fst (vested_by_block s)) (lock_transfer_block_ids s) = Inr series
       \<longrightarrow>
       ((\<exists>e. sanity_checks (latest_block_height s) series = Inl e
             \<and> produce s now = Inl e \<and> run s now = Inl e)
        \<longleftrightarrow>
        \<not> (series \<noteq> [] \<and> block_height (series ! 0) = latest_block_height s
           \<and> (\<forall>i. 0 < i \<and> i < length series \<longrightarrow>
                 block_height (series ! i) = block_height (series ! (i - 1)) + 1
                 \<and> total_calculated (series ! (i - 1)) \<le> total_calculated (series ! i)))))"
proof (intro conjI impI)
  show "sanity_checks cur totals = Inr () \<longleftrightarrow>
      totals \<noteq> [] \<and> block_height (totals ! 0) = cur
      \<and> (\<forall>i. 0 < i \<and> i < length totals \<longrightarrow>
            block_height (totals ! i) = block_height (totals ! (i - 1)) + 1
            \<and> total_calculated (totals ! (i - 1)) \<le> total_calculated (totals ! i))"
    by (rule sanity_checks_ok)
next
  assume acc: "accumulate s (latest_block_height s) ((now + 500) div 1000)
         (map fst (vested_by_block s)) (lock_transfer_block_ids s) = Inr series"
  have thrown: "\<And>e. sanity_checks (latest_block_height s) series = Inl e \<Longrightarrow>
      produce s now = Inl e \<and> run s now = Inl e"
    using acc by (simp add: produce_def run_def)
  have "(\<exists>e. sanity_checks (latest_block_height s) series = Inl e
             \<and> produce s now = Inl e \<and> run s now = Inl e)
      \<longleftrightarrow> sanity_checks (latest_block_height s) series \<noteq> Inr ()"
    using thrown by (cases "sanity_checks (latest_block_height s) series") auto
  then show "(\<exists>e. sanity_checks (latest_block_height s) series = Inl e
             \<and> produce s now = Inl e \<and> run s now = Inl e)
        \<longleftrightarrow>
        \<not> (series \<noteq> [] \<and> block_height (series ! 0) = latest_block_height s
           \<and> (\<forall>i. 0 < i \<and> i < length series \<longrightarrow>
                 block_height (series ! i) = block_height (series ! (i - 1)) + 1
                 \<and> total_calculated (series ! (i - 1)) \<le> total_calculated (series ! i)))"
    by (simp only: sanity_checks_ok [symmetric])
qed

theorem sanity_checks_abort_witness:
  "accumulate shrinking_store (latest_block_height shrinking_store) ((1600000000000 + 500) div 1000)
         (map fst (vested_by_block shrinking_store)) (lock_transfer_block_ids shrinking_store)
     = Inr shrinking_totals
   \<and> sanity_checks (latest_block_height shrinking_store) shrinking_totals
       = Inl (AssertionError ''total balance should always increase!'')
   \<and> (0::nat) < 1 \<and> 1 < length shrinking_totals
   \<and> \<not> total_calculated (shrinking_totals ! (1 - 1)) \<le> total_calculated (shrinking_totals ! 1)
   \<and> run shrinking_store 1600000000000
       = Inl (AssertionError ''total balance should always increase!'')"
proof -
  have acc: "accumulate shrinking_store (latest_block_height shrinking_store)
         ((1600000000000 + 500) div 1000)
         (map fst (vested_by_block shrinking_store)) (lock_transfer_block_ids shrinking_store)
     = Inr shrinking_totals"
    using shrinking_accumulate by (simp add: shrinking_store_def)
  have chk: "sanity_checks (latest_block_height shrinking_store) shrinking_totals
       = Inl (AssertionError ''total balance should always increase!'')"
    using shrinking_sanity by (simp add: shrinking_store_def)
  have le: "\<not> total_calculated (shrinking_totals ! (1 - 1)) \<le> total_calculated (shrinking_totals ! 1)"
    and len: "(0::nat) < 1 \<and> 1 < length shrinking_totals"
    by (simp_all add: shrinking_totals_def shrinking_entry_def)
  have r: "run shrinking_store 1600000000000
       = Inl (AssertionError ''total balance should always increase!'')"
    using acc chk by (simp add: run_def produce_def)
  from sanity_checks_abort [of 100 shrinking_totals shrinking_store 1600000000000
      shrinking_totals] acc chk r le len
  show ?thesis by simp
qed

section \<open>Pruning\<close>

lemma forward_scan_snoc:
  "forward_scan prev (es @ [e]) = forward_scan prev es @ forward_scan (scan_state prev es) [e]"
  by (induction es arbitrary: prev) (auto simp: scan_state_def split: option.splits)

lemma scan_state_Nil: "scan_state prev [] = prev"
  by (simp add: scan_state_def)

lemma scan_state_Cons:
  "scan_state prev (e # es) =
     scan_state (case prev of None \<Rightarrow> Some e
                 | Some p \<Rightarrow> if total_calculated e \<noteq> total_calculated p then Some e else prev) es"
  by (simp add: scan_state_def split: option.splits)

lemma scan_state_total:
  "es \<noteq> [] \<Longrightarrow> \<exists>p. scan_state prev es = Some p \<and> total_calculated p = total_calculated (last es)"
proof (induction es arbitrary: prev)
  case Nil
  then show ?case by simp
next
  case (Cons e es)
  show ?case
  proof (cases "es = []")
    case True
    then show ?thesis by (simp add: scan_state_Cons scan_state_Nil split: option.splits)
  next
    case False
    from Cons.IH [OF False] False show ?thesis by (simp add: scan_state_Cons)
  qed
qed

lemma prune_loop_forward:
  "i < length totals \<Longrightarrow>
     prune_loop i totals = forward_scan None (take (Suc i) totals) @ drop (Suc i) totals"
proof (induction i totals rule: prune_loop.induct)
  case (1 i totals)
  show ?case
  proof (cases "i > 0")
    case False
    with "1.prems" show ?thesis
      by (cases totals) (auto simp: prune_loop.simps [of 0])
  next
    case True
    let ?ts' = "if total_calculated (totals ! i) = total_calculated (totals ! (i - 1))
                then splice i 1 totals else totals"
    have len: "i - 1 < length ?ts'" using True "1.prems" by (auto simp: splice_def)
    have step: "prune_loop i totals = prune_loop (i - 1) ?ts'"
      using True by (simp add: prune_loop.simps [of i totals])
    have ih: "prune_loop (i - 1) ?ts' = forward_scan None (take i ?ts') @ drop i ?ts'"
      using "1.IH" [OF True len] True by simp
    have tk: "take i ?ts' = take i totals" using "1.prems" by (auto simp: splice_def)
    have ne: "take i totals \<noteq> []" using True "1.prems" by auto
    have lst: "last (take i totals) = totals ! (i - 1)"
      using slice_last_take [OF True, of totals] "1.prems" ne by (simp add: slice_last_def)
    from scan_state_total [OF ne, of None] lst obtain p where
      p: "scan_state None (take i totals) = Some p"
         "total_calculated p = total_calculated (totals ! (i - 1))"
      by auto
    have snoc: "forward_scan None (take (Suc i) totals)
        = forward_scan None (take i totals) @ forward_scan (Some p) [totals ! i]"
      using forward_scan_snoc [of None "take i totals" "totals ! i"] p(1) "1.prems"
      by (simp add: take_Suc_conv_app_nth)
    show ?thesis
    proof (cases "total_calculated (totals ! i) = total_calculated (totals ! (i - 1))")
      case eq: True
      then have "drop i ?ts' = drop (Suc i) totals" using "1.prems" by (simp add: splice_def)
      with step ih tk snoc p(2) eq show ?thesis by simp
    next
      case neq: False
      then have "drop i ?ts' = totals ! i # drop (Suc i) totals"
        using "1.prems" by (simp add: Cons_nth_drop_Suc)
      with step ih tk snoc p(2) neq show ?thesis by simp
    qed
  qed
qed

lemma prune_forward_scan: "prune totals = forward_scan None totals"
proof (cases "totals = []")
  case True
  then show ?thesis by (simp add: prune_def prune_loop.simps)
next
  case False
  then have "length totals - 1 < length totals" by simp
  from prune_loop_forward [OF this] False show ?thesis
    by (simp add: prune_def)
qed

text \<open>
  Claim C8. The backward in-place pruning of lines 108 to 112 returns, on every array of
  entries, the sequence the forward scan of the design notes returns.
\<close>

theorem prune_is_forward_scan: "prune totals = forward_prune totals"
  by (simp add: prune_forward_scan forward_prune_def)

lemma successively_nth:
  "successively P xs \<Longrightarrow> Suc i < length xs \<Longrightarrow> P (xs ! i) (xs ! Suc i)"
proof (induction xs arbitrary: i)
  case Nil
  then show ?case by simp
next
  case (Cons x xs)
  then show ?case
    by (cases i; cases xs) (auto simp: successively_Cons)
qed

lemma forward_scan_hd:
  "forward_scan (Some p) es \<noteq> [] \<Longrightarrow>
     total_calculated (hd (forward_scan (Some p) es)) \<noteq> total_calculated p"
  by (induction es) (auto split: if_splits)

lemma forward_scan_successively:
  "successively (\<lambda>a b. total_calculated a \<noteq> total_calculated b) (forward_scan prev es)"
proof (induction es arbitrary: prev)
  case Nil
  show ?case by simp
next
  case (Cons e es)
  have "successively (\<lambda>a b. total_calculated a \<noteq> total_calculated b) (e # forward_scan (Some e) es)"
    using Cons.IH [of "Some e"] forward_scan_hd [of e es]
    by (auto simp: successively_Cons)
  with Cons.IH [of prev] show ?case by (auto split: option.splits)
qed

lemma forward_scan_None_last:
  assumes "totals \<noteq> []"
  shows "forward_scan None totals \<noteq> []"
    and "hd (forward_scan None totals) = hd totals"
    and "total_calculated (last (forward_scan None totals)) = total_calculated (last totals)"
proof -
  from assms obtain e es where t: "totals = e # es" by (cases totals) auto
  then show ne: "forward_scan None totals \<noteq> []" and "hd (forward_scan None totals) = hd totals"
    by simp_all
  from scan_state_total [OF assms, of None] ne
  show "total_calculated (last (forward_scan None totals)) = total_calculated (last totals)"
    by (auto simp: scan_state_def)
qed

lemma forward_scan_butlast:
  assumes "2 \<le> length totals"
  shows "forward_scan None totals =
     forward_scan None (butlast totals)
     @ (if total_calculated (last totals) \<noteq> total_calculated (totals ! (length totals - 2))
        then [last totals] else [])"
proof -
  from assms have ne: "totals \<noteq> []" and bne: "butlast totals \<noteq> []"
    by (auto simp: butlast_conv_take)
  have lb: "last (butlast totals) = totals ! (length totals - 2)"
    using assms bne by (simp add: last_conv_nth nth_butlast numeral_2_eq_2)
  from scan_state_total [OF bne, of None] lb obtain p where
    p: "scan_state None (butlast totals) = Some p"
       "total_calculated p = total_calculated (totals ! (length totals - 2))"
    by auto
  have "forward_scan None totals = forward_scan None (butlast totals @ [last totals])"
    using ne by simp
  also have "\<dots> = forward_scan None (butlast totals) @ forward_scan (Some p) [last totals]"
    using forward_scan_snoc [of None "butlast totals" "last totals"] p(1) by simp
  finally show ?thesis using p(2) by simp
qed

text \<open>
  Claim C3, as amended. After pruning no two adjacent entries share a total. The first
  entry of a non-empty series is retained, and the total of the last retained entry is
  the total of the last entry of the series. The last entry itself is retained when it
  is the only one or when its total differs from that of the entry before it; otherwise
  it is removed, and the result is that of pruning the series without it.
\<close>

theorem prune_retains:
  "(\<forall>i. Suc i < length (prune totals) \<longrightarrow>
       total_calculated (prune totals ! i) \<noteq> total_calculated (prune totals ! Suc i))
   \<and> (totals \<noteq> [] \<longrightarrow>
       prune totals \<noteq> [] \<and> hd (prune totals) = hd totals
       \<and> total_calculated (last (prune totals)) = total_calculated (last totals))
   \<and> (length totals = 1
       \<or> 2 \<le> length totals
         \<and> total_calculated (last totals) \<noteq> total_calculated (totals ! (length totals - 2))
       \<longrightarrow> last (prune totals) = last totals)
   \<and> (2 \<le> length totals
       \<and> total_calculated (last totals) = total_calculated (totals ! (length totals - 2))
       \<longrightarrow> prune totals = prune (butlast totals))"
proof (intro conjI allI impI)
  fix i assume "Suc i < length (prune totals)"
  with successively_nth [OF forward_scan_successively, of i None totals]
  show "total_calculated (prune totals ! i) \<noteq> total_calculated (prune totals ! Suc i)"
    by (simp add: prune_forward_scan)
next
  assume "totals \<noteq> []"
  then show "prune totals \<noteq> []" "hd (prune totals) = hd totals"
    "total_calculated (last (prune totals)) = total_calculated (last totals)"
    using forward_scan_None_last [of totals] by (simp_all add: prune_forward_scan)
next
  assume h: "length totals = 1
       \<or> 2 \<le> length totals
         \<and> total_calculated (last totals) \<noteq> total_calculated (totals ! (length totals - 2))"
  show "last (prune totals) = last totals"
  proof (cases "length totals = 1")
    case True
    then obtain e where "totals = [e]" by (cases totals) auto
    then show ?thesis by (simp add: prune_forward_scan)
  next
    case False
    with h forward_scan_butlast [of totals] show ?thesis by (simp add: prune_forward_scan)
  qed
next
  assume "2 \<le> length totals
       \<and> total_calculated (last totals) = total_calculated (totals ! (length totals - 2))"
  with forward_scan_butlast [of totals] show "prune totals = prune (butlast totals)"
    by (simp add: prune_forward_scan)
qed

lemma scenario_prune:
  "prune scenario_totals =
     [scenario_entry 100 0 ''2020-09-13T12:26:40.000Z'',
      scenario_entry 105 500000 ''2020-09-13T13:16:40.000Z'']"
  by (simp add: prune_def prune_loop.simps splice_def scenario_totals_def scenario_entry_def)

theorem prune_retains_witness:
  "Suc 0 < length (prune scenario_totals)
   \<and> total_calculated (prune scenario_totals ! 0) \<noteq> total_calculated (prune scenario_totals ! Suc 0)
   \<and> scenario_totals \<noteq> []
   \<and> hd (prune scenario_totals) = hd scenario_totals
   \<and> total_calculated (last (prune scenario_totals)) = total_calculated (last scenario_totals)
   \<and> 2 \<le> length scenario_totals
   \<and> total_calculated (last scenario_totals)
       = total_calculated (scenario_totals ! (length scenario_totals - 2))
   \<and> prune scenario_totals = prune (butlast scenario_totals)
   \<and> length [scenario_entry 100 0 []] = 1
   \<and> last (prune [scenario_entry 100 0 []]) = last [scenario_entry 100 0 []]"
  using prune_retains [of scenario_totals] prune_retains [of "[scenario_entry 100 0 []]"]
  by (simp add: scenario_prune) (simp add: scenario_totals_def scenario_entry_def)

text \<open>
  In the scenario the pruned series is (block 100, block 105): the last entry, block 109,
  is not retained.
\<close>

theorem prune_drops_last_counterexample:
  "prune scenario_totals =
     [scenario_entry 100 0 ''2020-09-13T12:26:40.000Z'',
      scenario_entry 105 500000 ''2020-09-13T13:16:40.000Z'']
   \<and> last scenario_totals = scenario_entry 109 500000 ''2020-09-13T13:56:40.000Z''
   \<and> last scenario_totals \<notin> set (prune scenario_totals)"
  by (simp add: scenario_prune) (simp add: scenario_totals_def scenario_entry_def)

section \<open>The assertion on the final supply\<close>

lemmas render_defs = final_supply_def slice_front_def slice_back_def show_int_def
  is_digit_def is_word_def Let_def digit_char_def stx_string_def

lemma final_supply_target: "final_supply 1352464598000000 = ''1,352,464,598''"
  by (simp add: render_defs)

lemma final_supply_scenario: "final_supply 1500000 = ''1''"
  by (simp add: render_defs)

lemma launch_accumulate:
  "accumulate launch_store 100 1600000000 [101] [100, 102] =
     Inr (launch_totals ''2020-09-13T12:26:40.000Z'' ''2020-09-13T12:36:40.000Z''
            ''2020-09-13T12:46:40.000Z''
          @ map (\<lambda>(b, t). \<lparr> block_height = b, queried_micro_stx = 1352464597999000,
                   vested_micro_stx = 1000, total_calculated = 1352464598000000, date_time = t \<rparr>)
              [(103, ''2020-09-13T12:56:40.000Z''), (104, ''2020-09-13T13:06:40.000Z''),
               (105, ''2020-09-13T13:16:40.000Z''), (106, ''2020-09-13T13:26:40.000Z'')])"
  by (simp add: accumulate_def lastBlockHeight_def for_loop.simps loop_body_def
      launch_store_def launch_totals_def iso_defs slice_last_def)

lemma launch_produce:
  "produce launch_store 1600000000000 =
     Inr (launch_totals ''2020-09-13T12:26:40.000Z'' ''2020-09-13T12:36:40.000Z''
            ''2020-09-13T12:46:40.000Z'')"
proof -
  have "produce launch_store 1600000000000 =
     (case accumulate launch_store 100 1600000000 [101] [100, 102] of
           Inl e \<Rightarrow> Inl e
         | Inr totals \<Rightarrow>
             (case sanity_checks 100 totals of
                Inl e \<Rightarrow> Inl e
              | Inr u \<Rightarrow> Inr (prune totals)))"
    by (simp add: produce_def launch_store_def)
  then show ?thesis
    by (simp add: launch_accumulate launch_totals_def sanity_checks_def check_loop.simps
        prune_def prune_loop.simps splice_def)
qed

lemma scenario_produce:
  "produce scenario_store 1600000000000 =
     Inr [scenario_entry 100 0 ''2020-09-13T12:26:40.000Z'',
          scenario_entry 105 500000 ''2020-09-13T13:16:40.000Z'']"
proof -
  have "produce scenario_store 1600000000000 =
     (case accumulate scenario_store 100 1600000000 [105] [100] of
           Inl e \<Rightarrow> Inl e
         | Inr totals \<Rightarrow>
             (case sanity_checks 100 totals of
                Inl e \<Rightarrow> Inl e
              | Inr u \<Rightarrow> Inr (prune totals)))"
    by (simp add: produce_def scenario_store_def)
  moreover have "sanity_checks 100 scenario_totals = Inr ()"
    by (simp add: sanity_checks_def check_loop.simps scenario_totals_def scenario_entry_def)
  ultimately show ?thesis
    by (simp add: scenario_accumulate scenario_prune)
qed

lemma produce_nonempty:
  assumes "produce s now = Inr totals"
  shows "totals \<noteq> []"
proof -
  from assms obtain ts where ts: "sanity_checks (latest_block_height s) ts = Inr ()"
    and p: "totals = prune ts"
    by (auto simp: produce_def Let_def split: sum.splits)
  from ts have "ts \<noteq> []" by (simp add: sanity_checks_ok)
  with p show ?thesis by (cases ts) (simp_all add: prune_forward_scan)
qed

text \<open>
  Claim C9. A run that completes has a pruned series whose last total, cut to whole
  tokens and grouped in thousands, is the string \<open>1,352,464,598\<close>, and its result is
  the CSV file of that series. When the pruned series ends with any other rendering, the
  run ends with the AssertionError of line 118 and writes no file.
\<close>

theorem final_supply_assertion:
  "(run s now = Inr csv \<longrightarrow>
      (\<exists>totals. produce s now = Inr totals \<and> totals \<noteq> []
         \<and> final_supply (total_calculated (last totals)) = ''1,352,464,598''
         \<and> csv = csv_file totals))
   \<and> (produce s now = Inr totals \<longrightarrow>
        final_supply (total_calculated (last totals)) \<noteq> ''1,352,464,598'' \<longrightarrow>
        run s now = Inl (AssertionError ''incorrect final unlocked balance''))"
proof (intro conjI impI)
  assume r: "run s now = Inr csv"
  then obtain totals where p: "produce s now = Inr totals"
    by (auto simp: run_def split: sum.splits)
  from produce_nonempty [OF p] have ne: "totals \<noteq> []" .
  with r p have "final_supply (total_calculated (last totals)) = ''1,352,464,598''
      \<and> csv = csv_file totals"
    by (auto simp: run_def slice_last_def Let_def split: if_splits)
  with p ne show "\<exists>totals. produce s now = Inr totals \<and> totals \<noteq> []
         \<and> final_supply (total_calculated (last totals)) = ''1,352,464,598''
         \<and> csv = csv_file totals"
    by blast
next
  assume p: "produce s now = Inr totals"
    and f: "final_supply (total_calculated (last totals)) \<noteq> ''1,352,464,598''"
  from produce_nonempty [OF p] have "totals \<noteq> []" .
  with p f show "run s now = Inl (AssertionError ''incorrect final unlocked balance'')"
    by (simp add: run_def slice_last_def Let_def)
qed

theorem final_supply_assertion_witness:
  "run launch_store 1600000000000 =
     Inr (csv_file (launch_totals ''2020-09-13T12:26:40.000Z'' ''2020-09-13T12:36:40.000Z''
            ''2020-09-13T12:46:40.000Z''))
   \<and> final_supply (total_calculated (last (launch_totals ''2020-09-13T12:26:40.000Z''
        ''2020-09-13T12:36:40.000Z'' ''2020-09-13T12:46:40.000Z''))) = ''1,352,464,598''
   \<and> produce scenario_store 1600000000000 =
       Inr [scenario_entry 100 0 ''2020-09-13T12:26:40.000Z'',
            scenario_entry 105 500000 ''2020-09-13T13:16:40.000Z'']
   \<and> final_supply (total_calculated (last [scenario_entry 100 0 ''2020-09-13T12:26:40.000Z'',
            scenario_entry 105 500000 ''2020-09-13T13:16:40.000Z''])) \<noteq> ''1,352,464,598''
   \<and> run scenario_store 1600000000000 = Inl (AssertionError ''incorrect final unlocked balance'')"
proof -
  have r: "run launch_store 1600000000000 =
     Inr (csv_file (launch_totals ''2020-09-13T12:26:40.000Z'' ''2020-09-13T12:36:40.000Z''
            ''2020-09-13T12:46:40.000Z''))"
    by (simp add: run_def launch_produce slice_last_def)
      (simp add: launch_totals_def final_supply_target)
  have f: "final_supply (total_calculated (last [scenario_entry 100 0 ''2020-09-13T12:26:40.000Z'',
            scenario_entry 105 500000 ''2020-09-13T13:16:40.000Z''])) \<noteq> ''1,352,464,598''"
    by (simp add: scenario_entry_def final_supply_scenario)
  from final_supply_assertion [of launch_store 1600000000000
      "csv_file (launch_totals ''2020-09-13T12:26:40.000Z'' ''2020-09-13T12:36:40.000Z''
            ''2020-09-13T12:46:40.000Z'')"]
    final_supply_assertion [of scenario_store 1600000000000 _
      "[scenario_entry 100 0 ''2020-09-13T12:26:40.000Z'',
            scenario_entry 105 500000 ''2020-09-13T13:16:40.000Z'']"]
    r f scenario_produce launch_produce
  show ?thesis by simp
qed

section \<open>The decimal rendering\<close>

lemma microStxToStx_500: "microStxToStx (show_int 500) = ''0.000500''"
  by (simp add: microStxToStx_def render_defs padStart_def replicate_numeral)

lemma microStxToStx_supply: "microStxToStx (show_int 1352464598000000) = ''1352464598.000000''"
  by (simp add: microStxToStx_def render_defs padStart_def replicate_numeral)

text \<open>
  The rendering of 1352464598000000 micro-units has six digits after the point: it is
  \<open>1352464598.000000\<close>, not \<open>1352464.598000\<close>.
\<close>

theorem microStxToStx_example_counterexample:
  "microStxToStx (show_int 1352464598000000) = ''1352464598.000000''
   \<and> microStxToStx (show_int 1352464598000000) \<noteq> ''1352464.598000''"
  by (simp add: microStxToStx_supply)

text \<open>
  Claim C4, as amended. The rendering \<open>microStxToStx\<close> of the later version is a function
  of the decimal string of the amount alone: the string is padded with zeros on the left
  to at least 7 characters and a point is inserted 6 characters from the right. For
  1352464598000000 it returns \<open>1352464598.000000\<close> and for 500 it returns \<open>0.000500\<close>.
\<close>

theorem microStxToStx_point:
  "length (microStxToStx microStx) = max 7 (length microStx) + 1
   \<and> microStxToStx microStx ! (length (microStxToStx microStx) - 7) = CHR ''.''
   \<and> take (length (microStxToStx microStx) - 7) (microStxToStx microStx)
       @ drop (length (microStxToStx microStx) - 6) (microStxToStx microStx)
      = replicate (7 - length microStx) CHR ''0'' @ microStx
   \<and> microStxToStx (show_int 1352464598000000) = ''1352464598.000000''
   \<and> microStxToStx (show_int 500) = ''0.000500''"
proof -
  define padded where "padded = padStart 7 CHR ''0'' microStx"
  have len: "length padded = max 7 (length microStx)"
    by (simp add: padded_def padStart_def)
  have r: "microStxToStx microStx
      = take (length padded - 6) padded @ CHR ''.'' # drop (length padded - 6) padded"
    by (simp add: microStxToStx_def padded_def slice_front_def slice_back_def Let_def)
  have l: "length (microStxToStx microStx) = length padded + 1"
    unfolding r using len by simp
  have a: "length (microStxToStx microStx) - 7 = length padded - 6"
    and b: "length (microStxToStx microStx) - 6 = Suc (length padded - 6)"
    using l len by simp_all
  have lt: "length (take (length padded - 6) padded) = length padded - 6" by simp
  have p1: "microStxToStx microStx ! (length (microStxToStx microStx) - 7) = CHR ''.''"
    unfolding a unfolding r using lt by (metis nth_append_length)
  have p2: "take (length (microStxToStx microStx) - 7) (microStxToStx microStx)
       @ drop (length (microStxToStx microStx) - 6) (microStxToStx microStx) = padded"
    unfolding a b unfolding r by simp
  show ?thesis
    using l len p1 p2 microStxToStx_500 microStxToStx_supply
    by (simp add: padded_def padStart_def)
qed

text \<open>
  The rows of src/index.ts (lines 124 to 126) are rendered without the padding: the two
  renderings agree on amounts of seven digits or more, and differ below.
\<close>

lemma stx_string_500: "stx_string 500 = ''.500''"
  by (simp add: render_defs)

lemma microStxToReadable_padded:
  "7 \<le> length (show_int i) \<Longrightarrow> microStxToReadable (show_int i) = final_supply i"
  by (simp add: microStxToReadable_def final_supply_def padStart_def)

lemma stx_string_padded:
  "7 \<le> length (show_int i) \<Longrightarrow> stx_string i = microStxToStx (show_int i)"
  by (simp add: stx_string_def microStxToStx_def padStart_def Let_def)

section \<open>The clock\<close>

lemma slice_last_same:
  "list_all2 R xs ys \<Longrightarrow> rel_option R (slice_last xs) (slice_last ys)"
proof -
  assume a: "list_all2 R xs ys"
  then have len: "length xs = length ys" by (rule list_all2_lengthD)
  show ?thesis
  proof (cases "xs = []")
    case True
    with len show ?thesis by (simp add: slice_last_def)
  next
    case False
    with len have ne: "ys \<noteq> []" by auto
    from False have "length xs - 1 < length xs" by simp
    from list_all2_nthD [OF a this] False ne len show ?thesis
      by (simp add: slice_last_def last_conv_nth)
  qed
qed

lemma loop_body_same:
  assumes "loop_body s cur d1 vh lh ts1 bh = Inr t1"
    and "loop_body s cur d2 vh lh ts2 bh = Inr t2"
    and "list_all2 same_amounts ts1 ts2"
  shows "same_amounts t1 t2"
proof -
  from slice_last_same [OF assms(3)]
  have "(slice_last ts1 = None \<and> slice_last ts2 = None)
      \<or> (\<exists>p1 p2. slice_last ts1 = Some p1 \<and> slice_last ts2 = Some p2 \<and> same_amounts p1 p2)"
    by (cases "slice_last ts1"; cases "slice_last ts2") auto
  with assms(1,2) show ?thesis
    by (auto simp: loop_body_def Let_def same_amounts_def split: sum.splits if_splits option.splits)
qed

lemma for_loop_same:
  "for_loop (loop_body s cur d1 vh lh) l bh ts1 = Inr r1 \<Longrightarrow>
   for_loop (loop_body s cur d2 vh lh) l bh ts2 = Inr r2 \<Longrightarrow>
   list_all2 same_amounts ts1 ts2 \<Longrightarrow> list_all2 same_amounts r1 r2"
proof (induction "loop_body s cur d1 vh lh" l bh ts1 arbitrary: ts2 rule: for_loop.induct)
  case (1 l bh ts1)
  show ?case
  proof (cases "bh < l")
    case False
    with "1.prems" show ?thesis by (simp add: for_loop.simps [of _ l bh])
  next
    case True
    from True "1.prems"(1) obtain t1 where t1: "loop_body s cur d1 vh lh ts1 bh = Inr t1"
      and rec1: "for_loop (loop_body s cur d1 vh lh) l (bh + 1) (ts1 @ [t1]) = Inr r1"
      by (auto simp: for_loop.simps [of _ l bh ts1] split: sum.splits)
    from True "1.prems"(2) obtain t2 where t2: "loop_body s cur d2 vh lh ts2 bh = Inr t2"
      and rec2: "for_loop (loop_body s cur d2 vh lh) l (bh + 1) (ts2 @ [t2]) = Inr r2"
      by (auto simp: for_loop.simps [of _ l bh ts2] split: sum.splits)
    have "same_amounts t1 t2" using loop_body_same [OF t1 t2 "1.prems"(3)] .
    with "1.prems"(3) have "list_all2 same_amounts (ts1 @ [t1]) (ts2 @ [t2])"
      by (simp add: list_all2_appendI)
    from "1.hyps" [OF True t1 rec1 rec2 this] show ?thesis .
  qed
qed

lemma accumulate_same:
  "accumulate s cur d1 vh lh = Inr r1 \<Longrightarrow> accumulate s cur d2 vh lh = Inr r2 \<Longrightarrow>
     list_all2 same_amounts r1 r2"
  using for_loop_same [of s cur d1 vh lh _ cur "[]" r1 d2 "[]" r2]
  by (auto simp: accumulate_def split: option.splits)

lemma forward_scan_same:
  "list_all2 same_amounts es1 es2 \<Longrightarrow> rel_option same_amounts prev1 prev2 \<Longrightarrow>
     list_all2 same_amounts (forward_scan prev1 es1) (forward_scan prev2 es2)"
proof (induction es1 es2 arbitrary: prev1 prev2 rule: list_all2_induct)
  case Nil
  show ?case by simp
next
  case (Cons e1 es1 e2 es2)
  have some: "list_all2 same_amounts (forward_scan (Some e1) es1) (forward_scan (Some e2) es2)"
    using Cons.IH [of "Some e1" "Some e2"] Cons.hyps(1) by simp
  show ?case
  proof (cases prev1)
    case None
    with Cons.prems have "prev2 = None" by (cases prev2) auto
    with None some Cons.hyps(1) show ?thesis by simp
  next
    case (Some p1)
    with Cons.prems obtain p2 where p2: "prev2 = Some p2" "same_amounts p1 p2"
      by (cases prev2) auto
    have "(total_calculated e1 \<noteq> total_calculated p1) = (total_calculated e2 \<noteq> total_calculated p2)"
      using Cons.hyps(1) p2(2) by (simp add: same_amounts_def)
    with Some p2 some Cons.hyps(1) Cons.IH [of prev1 prev2] Cons.prems show ?thesis by auto
  qed
qed

lemma produce_same:
  assumes "produce s now1 = Inr p1" and "produce s now2 = Inr p2"
  shows "list_all2 same_amounts p1 p2"
proof -
  from assms(1) obtain r1 where r1: "accumulate s (latest_block_height s) ((now1 + 500) div 1000)
      (map fst (vested_by_block s)) (lock_transfer_block_ids s) = Inr r1" and p1: "p1 = prune r1"
    by (auto simp: produce_def Let_def split: sum.splits)
  from assms(2) obtain r2 where r2: "accumulate s (latest_block_height s) ((now2 + 500) div 1000)
      (map fst (vested_by_block s)) (lock_transfer_block_ids s) = Inr r2" and p2: "p2 = prune r2"
    by (auto simp: produce_def Let_def split: sum.splits)
  from accumulate_same [OF r1 r2] have "list_all2 same_amounts r1 r2" .
  from forward_scan_same [OF this, of None None] p1 p2 show ?thesis
    by (simp add: prune_forward_scan)
qed

lemma run_second: "(now1 + 500) div 1000 = (now2 + 500) div 1000 \<Longrightarrow> run s now1 = run s now2"
  by (simp add: run_def produce_def)

lemma run_csv: "run s now = Inr csv \<Longrightarrow> \<exists>totals. produce s now = Inr totals \<and> csv = csv_file totals"
  by (auto simp: run_def Let_def split: sum.splits option.splits if_splits)

lemma launch_accumulate_later:
  "accumulate launch_store 100 1600000001 [101] [100, 102] =
     Inr (launch_totals ''2020-09-13T12:26:41.000Z'' ''2020-09-13T12:36:41.000Z''
            ''2020-09-13T12:46:41.000Z''
          @ map (\<lambda>(b, t). \<lparr> block_height = b, queried_micro_stx = 1352464597999000,
                   vested_micro_stx = 1000, total_calculated = 1352464598000000, date_time = t \<rparr>)
              [(103, ''2020-09-13T12:56:41.000Z''), (104, ''2020-09-13T13:06:41.000Z''),
               (105, ''2020-09-13T13:16:41.000Z''), (106, ''2020-09-13T13:26:41.000Z'')])"
  by (simp add: accumulate_def lastBlockHeight_def for_loop.simps loop_body_def
      launch_store_def launch_totals_def iso_defs slice_last_def)

lemma launch_produce_later:
  "produce launch_store 1600000001000 =
     Inr (launch_totals ''2020-09-13T12:26:41.000Z'' ''2020-09-13T12:36:41.000Z''
            ''2020-09-13T12:46:41.000Z'')"
proof -
  have "produce launch_store 1600000001000 =
     (case accumulate launch_store 100 1600000001 [101] [100, 102] of
           Inl e \<Rightarrow> Inl e
         | Inr totals \<Rightarrow>
             (case sanity_checks 100 totals of
                Inl e \<Rightarrow> Inl e
              | Inr u \<Rightarrow> Inr (prune totals)))"
    by (simp add: produce_def launch_store_def)
  then show ?thesis
    by (simp add: launch_accumulate_later launch_totals_def sanity_checks_def check_loop.simps
        prune_def prune_loop.simps splice_def)
qed

lemma launch_run:
  "run launch_store 1600000000000 =
     Inr (csv_file (launch_totals ''2020-09-13T12:26:40.000Z'' ''2020-09-13T12:36:40.000Z''
            ''2020-09-13T12:46:40.000Z''))"
  by (simp add: run_def launch_produce slice_last_def)
    (simp add: launch_totals_def final_supply_target)

lemma launch_run_later:
  "run launch_store 1600000001000 =
     Inr (csv_file (launch_totals ''2020-09-13T12:26:41.000Z'' ''2020-09-13T12:36:41.000Z''
            ''2020-09-13T12:46:41.000Z''))"
  by (simp add: run_def launch_produce_later slice_last_def)
    (simp add: launch_totals_def final_supply_target)

lemma launch_csv:
  "csv_file (launch_totals t0 t1 t2) =
     ''block_height,unlocked_micro_stx,unlocked_stx,estimated_time'' @ crlf
     @ ''100,500,.500,'' @ t0 @ crlf
     @ ''101,1500,.1500,'' @ t1 @ crlf
     @ ''102,1352464598000000,1352464598.000000,'' @ t2 @ crlf"
  by (simp add: csv_file_def csv_row_def launch_totals_def render_defs)

lemma csv_row_same:
  "same_amounts a b \<Longrightarrow> csv_row (a\<lparr>date_time := t\<rparr>) = csv_row (b\<lparr>date_time := t\<rparr>)"
  by (simp add: csv_row_def same_amounts_def)

lemma csv_rows_same:
  "list_all2 same_amounts xs ys \<Longrightarrow>
     map (\<lambda>e. csv_row (e\<lparr>date_time := t\<rparr>)) xs = map (\<lambda>e. csv_row (e\<lparr>date_time := t\<rparr>)) ys"
  by (induction xs ys rule: list_all2_induct) (simp_all add: csv_row_same)

text \<open>
  Claim C7, as amended. The outcome of a run depends on the clock only through the
  reading rounded to seconds: two runs on the same ledger whose readings round to the
  same second have the same outcome, byte for byte. At any two readings, the series the
  two runs produce from the same ledger agree, entry by entry, in block height and in
  every amount, so their rows are the same text once the estimated time is blanked; the
  file of a completed run is the file of the series it produced.
\<close>

theorem run_clock:
  "((now1 + 500) div 1000 = (now2 + 500) div 1000 \<longrightarrow> run s now1 = run s now2)
   \<and> (produce s now1 = Inr totals1 \<longrightarrow> produce s now2 = Inr totals2 \<longrightarrow>
        list_all2 same_amounts totals1 totals2
        \<and> map (\<lambda>e. csv_row (e\<lparr>date_time := []\<rparr>)) totals1
            = map (\<lambda>e. csv_row (e\<lparr>date_time := []\<rparr>)) totals2
        \<and> (run s now1 = Inr csv1 \<longrightarrow> csv1 = csv_file totals1)
        \<and> (run s now2 = Inr csv2 \<longrightarrow> csv2 = csv_file totals2))
   \<and> (run s now1 = Inr csv1 \<longrightarrow> (\<exists>series. produce s now1 = Inr series))"
proof (intro conjI impI)
  assume "(now1 + 500) div 1000 = (now2 + 500) div 1000"
  then show "run s now1 = run s now2" by (rule run_second)
next
  assume p: "produce s now1 = Inr totals1" "produce s now2 = Inr totals2"
  from produce_same [OF p] show same: "list_all2 same_amounts totals1 totals2" .
  from csv_rows_same [OF same]
  show "map (\<lambda>e. csv_row (e\<lparr>date_time := []\<rparr>)) totals1
            = map (\<lambda>e. csv_row (e\<lparr>date_time := []\<rparr>)) totals2" .
next
  assume "produce s now1 = Inr totals1" and "run s now1 = Inr csv1"
  with run_csv [of s now1 csv1] show "csv1 = csv_file totals1" by auto
next
  assume "produce s now2 = Inr totals2" and "run s now2 = Inr csv2"
  with run_csv [of s now2 csv2] show "csv2 = csv_file totals2" by auto
next
  assume "run s now1 = Inr csv1"
  with run_csv [of s now1 csv1] show "\<exists>series. produce s now1 = Inr series" by auto
qed

theorem run_clock_witness:
  "(1600000000000 + 500) div 1000 = (1600000000499 + 500) div (1000::int)
   \<and> run launch_store 1600000000000 = run launch_store 1600000000499
   \<and> produce launch_store 1600000000000 =
       Inr (launch_totals ''2020-09-13T12:26:40.000Z'' ''2020-09-13T12:36:40.000Z''
            ''2020-09-13T12:46:40.000Z'')
   \<and> produce launch_store 1600000001000 =
       Inr (launch_totals ''2020-09-13T12:26:41.000Z'' ''2020-09-13T12:36:41.000Z''
            ''2020-09-13T12:46:41.000Z'')
   \<and> run launch_store 1600000000000 =
       Inr (csv_file (launch_totals ''2020-09-13T12:26:40.000Z'' ''2020-09-13T12:36:40.000Z''
            ''2020-09-13T12:46:40.000Z''))
   \<and> run launch_store 1600000001000 =
       Inr (csv_file (launch_totals ''2020-09-13T12:26:41.000Z'' ''2020-09-13T12:36:41.000Z''
            ''2020-09-13T12:46:41.000Z''))
   \<and> list_all2 same_amounts
        (launch_totals ''2020-09-13T12:26:40.000Z'' ''2020-09-13T12:36:40.000Z''
            ''2020-09-13T12:46:40.000Z'')
        (launch_totals ''2020-09-13T12:26:41.000Z'' ''2020-09-13T12:36:41.000Z''
            ''2020-09-13T12:46:41.000Z'')
   \<and> map (\<lambda>e. csv_row (e\<lparr>date_time := []\<rparr>))
        (launch_totals ''2020-09-13T12:26:40.000Z'' ''2020-09-13T12:36:40.000Z''
            ''2020-09-13T12:46:40.000Z'')
       = map (\<lambda>e. csv_row (e\<lparr>date_time := []\<rparr>))
        (launch_totals ''2020-09-13T12:26:41.000Z'' ''2020-09-13T12:36:41.000Z''
            ''2020-09-13T12:46:41.000Z'')"
proof -
  let ?a = "launch_totals ''2020-09-13T12:26:40.000Z'' ''2020-09-13T12:36:40.000Z''
            ''2020-09-13T12:46:40.000Z''"
  let ?b = "launch_totals ''2020-09-13T12:26:41.000Z'' ''2020-09-13T12:36:41.000Z''
            ''2020-09-13T12:46:41.000Z''"
  have sec: "(1600000000000 + 500) div 1000 = (1600000000499 + 500) div (1000::int)"
    by simp
  have same_second: "run launch_store 1600000000000 = run launch_store 1600000000499"
    using run_clock [of 1600000000000 1600000000499 launch_store ?a ?b
        "csv_file ?a" "csv_file ?b"] sec
    by blast
  have later: "list_all2 same_amounts ?a ?b
      \<and> map (\<lambda>e. csv_row (e\<lparr>date_time := []\<rparr>)) ?a
          = map (\<lambda>e. csv_row (e\<lparr>date_time := []\<rparr>)) ?b"
    using run_clock [of 1600000000000 1600000001000 launch_store ?a ?b
        "csv_file ?a" "csv_file ?b"] launch_produce launch_produce_later
    by blast
  show ?thesis
    using sec same_second later launch_produce launch_produce_later launch_run launch_run_later
    by blast
qed

text \<open>
  Two runs on the same ledger, one second apart on the clock: both complete, and the
  files differ in the column of the estimated time.
\<close>

theorem run_twice_counterexample:
  "run launch_store 1600000000000 =
     Inr (''block_height,unlocked_micro_stx,unlocked_stx,estimated_time'' @ crlf
          @ ''100,500,.500,2020-09-13T12:26:40.000Z'' @ crlf
          @ ''101,1500,.1500,2020-09-13T12:36:40.000Z'' @ crlf
          @ ''102,1352464598000000,1352464598.000000,2020-09-13T12:46:40.000Z'' @ crlf)
   \<and> run launch_store 1600000001000 =
     Inr (''block_height,unlocked_micro_stx,unlocked_stx,estimated_time'' @ crlf
          @ ''100,500,.500,2020-09-13T12:26:41.000Z'' @ crlf
          @ ''101,1500,.1500,2020-09-13T12:36:41.000Z'' @ crlf
          @ ''102,1352464598000000,1352464598.000000,2020-09-13T12:46:41.000Z'' @ crlf)
   \<and> run launch_store 1600000000000 \<noteq> run launch_store 1600000001000"
  unfolding launch_run launch_run_later launch_csv by simp

section \<open>The totals the final assertion accepts\<close>

declare show_nat.simps [simp del]

lemma digit_val_digit_char: "digit_val (digit_char d) = d mod 10"
proof -
  have "d mod 10 < 10" by simp
  then have "d mod 10 = 0 \<or> d mod 10 = 1 \<or> d mod 10 = 2 \<or> d mod 10 = 3 \<or> d mod 10 = 4
      \<or> d mod 10 = 5 \<or> d mod 10 = 6 \<or> d mod 10 = 7 \<or> d mod 10 = 8 \<or> d mod 10 = 9"
    by arith
  then show ?thesis
    by (elim disjE) (simp_all add: digit_char_def digit_val_def)
qed

lemma is_digit_digit_char: "is_digit (digit_char d)"
proof -
  have "d mod 10 < 10" by simp
  then have "d mod 10 = 0 \<or> d mod 10 = 1 \<or> d mod 10 = 2 \<or> d mod 10 = 3 \<or> d mod 10 = 4
      \<or> d mod 10 = 5 \<or> d mod 10 = 6 \<or> d mod 10 = 7 \<or> d mod 10 = 8 \<or> d mod 10 = 9"
    by arith
  then show ?thesis
    by (elim disjE) (simp_all add: digit_char_def is_digit_def)
qed

lemma read_nat_show_nat: "read_nat (show_nat n) = n"
proof (induction n rule: show_nat.induct)
  case (1 n)
  show ?case
  proof (cases "n < 10")
    case True
    then show ?thesis
      by (simp add: show_nat.simps [of n] read_nat_def digit_val_digit_char)
  next
    case False
    with "1.IH" have "read_nat (show_nat (n div 10)) = n div 10" by simp
    with False show ?thesis
      by (simp add: show_nat.simps [of n] read_nat_def digit_val_digit_char)
  qed
qed

lemma show_nat_digits: "c \<in> set (show_nat n) \<Longrightarrow> is_digit c"
proof (induction n rule: show_nat.induct)
  case (1 n)
  then show ?case
    by (cases "n < 10") (auto simp: show_nat.simps [of n] is_digit_digit_char)
qed

lemma slice_front_Suc: "slice_front (Suc k) s = slice_front 1 (slice_front k s)"
  by (cases k) (auto simp: slice_front_def min_def)

lemma slice_front_1_show_nat:
  "slice_front 1 (show_nat n) = (if n < 10 then [] else show_nat (n div 10))"
  by (simp add: slice_front_def show_nat.simps [of n])

lemma slice_front_show_nat:
  "slice_front (Suc k) (show_nat n) = (if n < 10 ^ Suc k then [] else show_nat (n div 10 ^ Suc k))"
proof (induction k)
  case 0
  show ?case using slice_front_1_show_nat [of n] by simp
next
  case (Suc k)
  have a: "n div 10 ^ Suc k < 10 \<longleftrightarrow> n < 10 ^ Suc (Suc k)"
    by (simp add: less_mult_imp_div_less div_less_iff_less_mult mult.commute)
  have "n div 10 ^ Suc k div 10 = n div (10 ^ Suc k * 10)"
    by (rule div_mult2_eq [symmetric])
  also have "10 ^ Suc k * 10 = (10::nat) ^ Suc (Suc k)" by simp
  finally have b: "n div 10 ^ Suc k div 10 = n div 10 ^ Suc (Suc k)" .
  have c: "n < 10 ^ Suc k \<Longrightarrow> n < 10 ^ Suc (Suc k)"
    by simp
  show ?case
    unfolding slice_front_Suc [of "Suc k"] Suc.IH
    using a b c slice_front_1_show_nat [of "n div 10 ^ Suc k"]
    by (auto simp: slice_front_def)
qed

lemma add_commas_filter:
  "filter (\<lambda>c. c \<noteq> CHR '','') (add_commas prev s) = filter (\<lambda>c. c \<noteq> CHR '','') s"
  by (induction s arbitrary: prev) auto

lemma final_supply_negative:
  assumes "t < 0"
  shows "final_supply t \<noteq> ''1,352,464,598''"
proof -
  have "slice_front 6 (show_int t) = [] \<or> (\<exists>cs. slice_front 6 (show_int t) = CHR ''-'' # cs)"
    using assms by (cases "length (show_nat (nat (- t))) - 5") (auto simp: slice_front_def show_int_def)
  then show ?thesis
    by (auto simp: final_supply_def is_digit_def)
qed

text \<open>
  The totals the assertion of line 118 accepts are those of 1,352,464,598 whole tokens:
  the last six digits, the micro-units below one token, are cut off.
\<close>

lemma final_supply_accepts:
  "final_supply t = ''1,352,464,598'' \<longleftrightarrow> 1352464598000000 \<le> t \<and> t \<le> 1352464598999999"
proof (cases "t < 0")
  case True
  with final_supply_negative [OF True] show ?thesis by simp
next
  case False
  define n where "n = nat t"
  have t: "t = int n" using False by (simp add: n_def)
  have fs: "final_supply t = add_commas None (if n < 10 ^ 6 then [] else show_nat (n div 10 ^ 6))"
    using slice_front_show_nat [of 5 n] False
    by (simp add: final_supply_def show_int_def n_def)
  show ?thesis
  proof (cases "n < 10 ^ 6")
    case True
    with fs t show ?thesis by simp
  next
    case big: False
    have target: "add_commas None (show_nat 1352464598) = ''1,352,464,598''"
      by (simp add: show_nat.simps is_digit_def is_word_def digit_char_def)
    have "final_supply t = ''1,352,464,598'' \<longleftrightarrow> n div 10 ^ 6 = 1352464598"
    proof
      assume "final_supply t = ''1,352,464,598''"
      with fs big have "add_commas None (show_nat (n div 10 ^ 6)) = ''1,352,464,598''" by simp
      then have "filter (\<lambda>c. c \<noteq> CHR '','') (add_commas None (show_nat (n div 10 ^ 6)))
          = ''1352464598''" by simp
      then have f: "filter (\<lambda>c. c \<noteq> CHR '','') (show_nat (n div 10 ^ 6)) = ''1352464598''"
        by (simp only: add_commas_filter)
      have "\<not> is_digit CHR '',''" by (simp add: is_digit_def)
      then have "\<forall>c \<in> set (show_nat (n div 10 ^ 6)). c \<noteq> CHR '',''"
        using show_nat_digits by blast
      then have "filter (\<lambda>c. c \<noteq> CHR '','') (show_nat (n div 10 ^ 6)) = show_nat (n div 10 ^ 6)"
        by (simp add: filter_id_conv)
      with f have "read_nat (show_nat (n div 10 ^ 6)) = read_nat ''1352464598''" by simp
      then show "n div 10 ^ 6 = 1352464598"
        by (simp add: read_nat_show_nat) (simp add: read_nat_def digit_val_def)
    next
      assume "n div 10 ^ 6 = 1352464598"
      with fs big target show "final_supply t = ''1,352,464,598''" by simp
    qed
    also have "\<dots> \<longleftrightarrow> 1352464598000000 \<le> t \<and> t \<le> 1352464598999999"
      unfolding t by (simp, arith)
    finally show ?thesis .
  qed
qed

end
